theory Spec2Isabelle
  imports Complex_Main
begin

section \<open>GeoJSON values and the geometry library\<close>

text \<open>
  The geometry module (\<^verbatim>\<open>lib/geo\<close>) is a thin layer over the Turf geometry library and the
  d3 colour scales. Neither library is part of the repository, so every primitive the
  module calls is a field of the record \<open>turf\<close> below and the functions of the module take
  that record as their first argument. A library call may throw; its result is therefore
  a sum, with \<open>Inl\<close> for the exception.

  JavaScript numbers are modelled as real numbers. Where the module itself starts from
  \<^verbatim>\<open>Infinity\<close> and only compares numbers (the nearest-road search), they are values of
  \<open>jsnum\<close>, with JavaScript's comparison \<open>js_lt\<close>. \<^verbatim>\<open>Math.exp\<close> is not the real exponential:
  the engine returns a binary64 number, which is 0 for every argument below about -745.
  It is therefore a primitive as well, the field \<open>mathExp\<close>.
\<close>

type_synonym position = "real list"

type_synonym ring = "position list"

datatype geometry =
    Polygon "ring list"
  | MultiPolygon "ring list list"
  | LineString "position list"
  | Point position
  | GeometryCollection

record geojson_feature =
  geometry :: "geometry option"
  properties :: "(string \<times> string) list"

datatype js_error = TypeError | Thrown string

text \<open>
  A distance as the library reports it: a number, \<^verbatim>\<open>Infinity\<close> (a line without a segment)
  or \<^verbatim>\<open>NaN\<close>. Every comparison with \<^verbatim>\<open>NaN\<close> is false.
\<close>

datatype jsnum = Num real | Infinity | NaN

fun js_lt :: "jsnum \<Rightarrow> jsnum \<Rightarrow> bool" where
  "js_lt (Num a) (Num b) = (a < b)"
| "js_lt (Num a) Infinity = True"
| "js_lt _ _ = False"

text \<open>The result of \<^verbatim>\<open>nearestPointOnLine\<close>: a point feature whose properties carry \<^verbatim>\<open>dist\<close>.\<close>

record nearest_properties =
  np_dist :: "jsnum option"

record nearest_point =
  np_coordinates :: position
  np_properties :: "nearest_properties option"

text \<open>
  The primitives imported at the top of the module. A point feature (an element of what
  \<^verbatim>\<open>explode\<close> returns, the result of \<^verbatim>\<open>centroid\<close>) is represented by its coordinates.
  \<open>lineString\<close> takes an optional ring because the module hands it \<^verbatim>\<open>coordinates[0]\<close>, which
  is \<^verbatim>\<open>undefined\<close> for an empty array. \<open>colorScale\<close> stands for
  \<^verbatim>\<open>scaleSequential(interpolateRdYlBu).domain([0, 1])\<close> and \<open>mathExp\<close> for the engine's
  \<^verbatim>\<open>Math.exp\<close>.
\<close>

record turf =
  polygon :: "ring list \<Rightarrow> js_error + geojson_feature"
  lineString :: "ring option \<Rightarrow> js_error + geojson_feature"
  turfArea :: "geojson_feature \<Rightarrow> js_error + real"
  turfBbox :: "geojson_feature \<Rightarrow> js_error + real list"
  turfExplode :: "geojson_feature \<Rightarrow> js_error + position list"
  turfNearestPointOnLine :: "geojson_feature \<Rightarrow> position \<Rightarrow> js_error + nearest_point option"
  turfSquareGrid :: "real list \<Rightarrow> real \<Rightarrow> js_error + geojson_feature list"
  turfBooleanIntersects :: "geojson_feature \<Rightarrow> geojson_feature \<Rightarrow> js_error + bool"
  turfIntersect :: "geojson_feature list \<Rightarrow> js_error + geojson_feature option"
  turfCentroid :: "geojson_feature \<Rightarrow> js_error + position"
  turfPointToLineDistance :: "position \<Rightarrow> geojson_feature \<Rightarrow> js_error + real"
  colorScale :: "real \<Rightarrow> string"
  mathExp :: "real \<Rightarrow> real"

text \<open>
  \<^verbatim>\<open>xs.forEach(f)\<close> where the callback updates local variables: the variables are the
  state \<open>s\<close>, and an exception thrown by the callback ends the loop.
\<close>

fun forEachE :: "('s \<Rightarrow> 'a \<Rightarrow> js_error + 's) \<Rightarrow> 'a list \<Rightarrow> 's \<Rightarrow> js_error + 's" where
  "forEachE f [] s = Inr s"
| "forEachE f (x # xs) s = (case f s x of Inl e \<Rightarrow> Inl e | Inr s' \<Rightarrow> forEachE f xs s')"

text \<open>\<^verbatim>\<open>xs[0]\<close>, which is \<^verbatim>\<open>undefined\<close> when the array is empty.\<close>

definition first :: "'a list \<Rightarrow> 'a option" where
  "first xs = (case xs of [] \<Rightarrow> None | x # _ \<Rightarrow> Some x)"

section \<open>normalizePolygon\<close>

text \<open>
  \<^verbatim>\<open>const polyFeature = polygon(polyCoords); const a = turfArea(polyFeature);\<close>
\<close>

definition partArea :: "turf \<Rightarrow> ring list \<Rightarrow> js_error + real" where
  "partArea env polyCoords =
     (case polygon env polyCoords of
        Inl e \<Rightarrow> Inl e
      | Inr polyFeature \<Rightarrow> turfArea env polyFeature)"

text \<open>The body of the \<^verbatim>\<open>forEach\<close> over the parts; the state is \<open>(maxArea, maxPolyCoords)\<close>.\<close>

definition normalizeStep ::
  "turf \<Rightarrow> real \<times> ring list option \<Rightarrow> ring list \<Rightarrow> js_error + (real \<times> ring list option)" where
  "normalizeStep env st polyCoords =
     (case partArea env polyCoords of
        Inl e \<Rightarrow> Inl e
      | Inr a \<Rightarrow> Inr (if a > fst st then (a, Some polyCoords) else st))"

definition normalizePolygon :: "turf \<Rightarrow> geojson_feature option \<Rightarrow> js_error + geojson_feature option" where
  "normalizePolygon env feature =
     (case feature of
        None \<Rightarrow> Inr None
      | Some f \<Rightarrow>
          (case geometry f of
             None \<Rightarrow> Inr None
           | Some (Polygon cs) \<Rightarrow> Inr (Some f)
           | Some (MultiPolygon coords) \<Rightarrow>
               (case forEachE (normalizeStep env) coords (- 1, None) of
                  Inl e \<Rightarrow> Inl e
                | Inr (maxArea, maxPolyCoords) \<Rightarrow>
                    (case maxPolyCoords of
                       Some c \<Rightarrow> (case polygon env c of Inl e \<Rightarrow> Inl e | Inr p \<Rightarrow> Inr (Some p))
                     | None \<Rightarrow> Inr None))
           | Some _ \<Rightarrow> Inr None))"

section \<open>findClosestRoadAndConnection\<close>

record closest_road_result =
  roadIndex :: int
  distanceMeters :: jsnum
  connection :: "position list"

text \<open>
  Step 1 of the function: the array \<^verbatim>\<open>boundaryLines\<close>. Reading \<^verbatim>\<open>.type\<close> of a null geometry
  is a \<^verbatim>\<open>TypeError\<close>.
\<close>

definition boundaryLines :: "turf \<Rightarrow> geojson_feature \<Rightarrow> js_error + geojson_feature list" where
  "boundaryLines env polygonFeature =
     (case geometry polygonFeature of
        None \<Rightarrow> Inl TypeError
      | Some (Polygon coords) \<Rightarrow>
          (case lineString env (first coords) of Inl e \<Rightarrow> Inl e | Inr l \<Rightarrow> Inr [l])
      | Some (MultiPolygon coords) \<Rightarrow>
          forEachE (\<lambda>acc poly. case lineString env (first poly) of
                                  Inl e \<Rightarrow> Inl e
                                | Inr l \<Rightarrow> Inr (acc @ [l])) coords []
      | Some _ \<Rightarrow> Inr [])"

text \<open>
  The guard \<^verbatim>\<open>n && n.properties && n.properties.dist !== undefined\<close>: the nearest point and
  its distance when all three hold.
\<close>

definition guardedDist :: "nearest_point option \<Rightarrow> (nearest_point \<times> jsnum) option" where
  "guardedDist n =
     (case n of
        None \<Rightarrow> None
      | Some np \<Rightarrow>
          (case np_properties np of
             None \<Rightarrow> None
           | Some pr \<Rightarrow> (case np_dist pr of None \<Rightarrow> None | Some d \<Rightarrow> Some (np, d))))"

text \<open>
  The two inner iterations; the state is \<open>(currentMinDist, currentConnection)\<close>.
  A: a boundary vertex against the road; B: a road vertex against the boundary.
\<close>

definition boundarySample ::
  "turf \<Rightarrow> geojson_feature \<Rightarrow> jsnum \<times> position list \<Rightarrow> position \<Rightarrow> js_error + (jsnum \<times> position list)" where
  "boundarySample env road cur pt =
     (case turfNearestPointOnLine env road pt of
        Inl e \<Rightarrow> Inl e
      | Inr nearestOnRoad \<Rightarrow>
          Inr (case guardedDist nearestOnRoad of
                 None \<Rightarrow> cur
               | Some (np, d) \<Rightarrow> if js_lt d (fst cur) then (d, [pt, np_coordinates np]) else cur))"

definition roadSample ::
  "turf \<Rightarrow> geojson_feature \<Rightarrow> jsnum \<times> position list \<Rightarrow> position \<Rightarrow> js_error + (jsnum \<times> position list)" where
  "roadSample env boundary cur pt =
     (case turfNearestPointOnLine env boundary pt of
        Inl e \<Rightarrow> Inl e
      | Inr nearestOnBoundary \<Rightarrow>
          Inr (case guardedDist nearestOnBoundary of
                 None \<Rightarrow> cur
               | Some (np, d) \<Rightarrow> if js_lt d (fst cur) then (d, [np_coordinates np, pt]) else cur))"

text \<open>One road: \<open>(currentMinDist, currentConnection)\<close> after both iterations.\<close>

definition roadMin :: "turf \<Rightarrow> geojson_feature \<Rightarrow> geojson_feature \<Rightarrow> js_error + (jsnum \<times> position list)" where
  "roadMin env boundary road =
     (case turfExplode env boundary of
        Inl e \<Rightarrow> Inl e
      | Inr boundaryPoints \<Rightarrow>
          (case forEachE (boundarySample env road) boundaryPoints (Infinity, []) of
             Inl e \<Rightarrow> Inl e
           | Inr cur \<Rightarrow>
               (case turfExplode env road of
                  Inl e \<Rightarrow> Inl e
                | Inr roadPoints \<Rightarrow> forEachE (roadSample env boundary) roadPoints cur)))"

text \<open>
  The outer \<^verbatim>\<open>roads.forEach((road, index) => ...)\<close>; the state is
  \<open>(globalMinDist, closestRoadIndex, bestConnection)\<close>.
\<close>

definition roadStep ::
  "turf \<Rightarrow> geojson_feature \<Rightarrow> jsnum \<times> int \<times> position list \<Rightarrow> geojson_feature \<Rightarrow> int
     \<Rightarrow> js_error + (jsnum \<times> int \<times> position list)" where
  "roadStep env boundary st road index =
     (case roadMin env boundary road of
        Inl e \<Rightarrow> Inl e
      | Inr (currentMinDist, currentConnection) \<Rightarrow>
          Inr (if js_lt currentMinDist (fst st) then (currentMinDist, index, currentConnection) else st))"

fun roadsLoop ::
  "turf \<Rightarrow> geojson_feature \<Rightarrow> geojson_feature list \<Rightarrow> int \<Rightarrow> jsnum \<times> int \<times> position list
     \<Rightarrow> js_error + (jsnum \<times> int \<times> position list)" where
  "roadsLoop env boundary [] index st = Inr st"
| "roadsLoop env boundary (road # rest) index st =
     (case roadStep env boundary st road index of
        Inl e \<Rightarrow> Inl e
      | Inr st' \<Rightarrow> roadsLoop env boundary rest (index + 1) st')"

definition findClosestRoadAndConnection ::
  "turf \<Rightarrow> geojson_feature option \<Rightarrow> geojson_feature list option \<Rightarrow> js_error + closest_road_result option" where
  "findClosestRoadAndConnection env polygonFeature roads =
     (case polygonFeature of
        None \<Rightarrow> Inr None
      | Some pf \<Rightarrow>
          (case roads of
             None \<Rightarrow> Inr None
           | Some rs \<Rightarrow>
               if length rs = 0 then Inr None
               else
                 (case boundaryLines env pf of
                    Inl e \<Rightarrow> Inl e
                  | Inr [] \<Rightarrow> Inr None
                  | Inr (boundary # _) \<Rightarrow>
                      (case roadsLoop env boundary rs 0 (Infinity, - 1, []) of
                         Inl e \<Rightarrow> Inl e
                       | Inr (globalMinDist, closestRoadIndex, bestConnection) \<Rightarrow>
                           if closestRoadIndex \<noteq> - 1
                           then Inr (Some \<lparr>roadIndex = closestRoadIndex,
                                           distanceMeters = globalMinDist,
                                           connection = bestConnection\<rparr>)
                           else Inr None))))"

section \<open>generateSubdivisionGrid\<close>

text \<open>
  The \<^verbatim>\<open>forEach\<close> over the parts of a MultiPolygon clip result. It runs inside the
  \<^verbatim>\<open>try\<close>: when \<^verbatim>\<open>polygon\<close> throws, the \<^verbatim>\<open>catch\<close> ends the loop and the cells pushed so far stay.
\<close>

fun pushParts :: "turf \<Rightarrow> geojson_feature list \<Rightarrow> ring list list \<Rightarrow> geojson_feature list" where
  "pushParts env clippedCells [] = clippedCells"
| "pushParts env clippedCells (coords # rest) =
     (case polygon env coords of
        Inl e \<Rightarrow> clippedCells
      | Inr p \<Rightarrow> pushParts env (clippedCells @ [p]) rest)"

text \<open>
  The \<^verbatim>\<open>try\<close> block for one tile; \<^verbatim>\<open>featureCollection([cell, polygonFeature])\<close> is the
  two-element list. Every exception in it is caught and only logged.
\<close>

definition clipCell :: "turf \<Rightarrow> geojson_feature \<Rightarrow> geojson_feature list \<Rightarrow> geojson_feature \<Rightarrow> geojson_feature list" where
  "clipCell env polygonFeature clippedCells cell =
     (case turfIntersect env [cell, polygonFeature] of
        Inl e \<Rightarrow> clippedCells
      | Inr None \<Rightarrow> clippedCells
      | Inr (Some clipped) \<Rightarrow>
          (case geometry clipped of
             None \<Rightarrow> clippedCells
           | Some (Polygon cs) \<Rightarrow> clippedCells @ [clipped]
           | Some (MultiPolygon coords) \<Rightarrow> pushParts env clippedCells coords
           | Some _ \<Rightarrow> clippedCells))"

definition gridStep :: "turf \<Rightarrow> geojson_feature \<Rightarrow> geojson_feature list \<Rightarrow> geojson_feature \<Rightarrow> js_error + geojson_feature list" where
  "gridStep env polygonFeature clippedCells cell =
     (case turfBooleanIntersects env cell polygonFeature of
        Inl e \<Rightarrow> Inl e
      | Inr intersects \<Rightarrow>
          Inr (if intersects then clipCell env polygonFeature clippedCells cell else clippedCells))"

definition generateSubdivisionGrid :: "turf \<Rightarrow> geojson_feature option \<Rightarrow> real \<Rightarrow> js_error + geojson_feature list" where
  "generateSubdivisionGrid env polygonFeature cellSizeMeters =
     (case polygonFeature of
        None \<Rightarrow> Inr []
      | Some pf \<Rightarrow>
          (case turfBbox env pf of
             Inl e \<Rightarrow> Inl e
           | Inr bbox \<Rightarrow>
               (let cellSideKm = cellSizeMeters / 1000 in
                case turfSquareGrid env bbox cellSideKm of
                  Inl e \<Rightarrow> Inl e
                | Inr grid \<Rightarrow> forEachE (gridStep env pf) grid [])))"

section \<open>calculateLandValues\<close>

datatype valuation_mode = Linear | Exponential

record cell_value =
  feature :: geojson_feature
  distance :: real
  cellValue :: real
  color :: string

text \<open>\<^verbatim>\<open>cells.map(...)\<close> with a callback that may throw.\<close>

fun mapE :: "('a \<Rightarrow> js_error + 'b) \<Rightarrow> 'a list \<Rightarrow> js_error + 'b list" where
  "mapE f [] = Inr []"
| "mapE f (x # xs) =
     (case f x of
        Inl e \<Rightarrow> Inl e
      | Inr y \<Rightarrow> (case mapE f xs of Inl e \<Rightarrow> Inl e | Inr ys \<Rightarrow> Inr (y # ys)))"

definition measureCell :: "turf \<Rightarrow> geojson_feature \<Rightarrow> geojson_feature \<Rightarrow> js_error + cell_value" where
  "measureCell env roadFeature cell =
     (case turfCentroid env cell of
        Inl e \<Rightarrow> Inl e
      | Inr center \<Rightarrow>
          (case turfPointToLineDistance env center roadFeature of
             Inl e \<Rightarrow> Inl e
           | Inr d \<Rightarrow> Inr \<lparr>feature = cell, distance = d, cellValue = 0, color = []\<rparr>))"

text \<open>
  \<^verbatim>\<open>maxDistanceOverride || Math.max(...results.map(r => r.distance), 1)\<close>: the left operand
  of \<^verbatim>\<open>||\<close> is taken when it is truthy, that is, present and not zero.
\<close>

definition maxDistOf :: "real option \<Rightarrow> cell_value list \<Rightarrow> real" where
  "maxDistOf maxDistanceOverride results =
     (case maxDistanceOverride of
        Some v \<Rightarrow> if v \<noteq> 0 then v else fold max (map distance results) 1
      | None \<Rightarrow> fold max (map distance results) 1)"

definition scoreCell :: "turf \<Rightarrow> valuation_mode \<Rightarrow> real \<Rightarrow> real \<Rightarrow> cell_value \<Rightarrow> cell_value" where
  "scoreCell env mode decayK maxDist r =
     (let val = (if mode = Linear then max 0 (1 - distance r / maxDist)
                 else mathExp env (- decayK * distance r))
      in r\<lparr>cellValue := val, color := colorScale env (1 - val)\<rparr>)"

text \<open>\<^verbatim>\<open>decayK\<close> has the default \<^verbatim>\<open>0.005\<close>; \<^verbatim>\<open>maxDistanceOverride\<close> is optional.\<close>

definition calculateLandValues ::
  "turf \<Rightarrow> geojson_feature list \<Rightarrow> geojson_feature option \<Rightarrow> valuation_mode \<Rightarrow> real option \<Rightarrow> real option
     \<Rightarrow> js_error + cell_value list" where
  "calculateLandValues env cells roadFeature mode decayKArg maxDistanceOverride =
     (if length cells = 0 \<or> roadFeature = None then Inr []
      else
        (let decayK = (case decayKArg of None \<Rightarrow> 5 / 1000 | Some k \<Rightarrow> k) in
         case mapE (measureCell env (the roadFeature)) cells of
           Inl e \<Rightarrow> Inl e
         | Inr results \<Rightarrow>
             (let maxDist = maxDistOf maxDistanceOverride results
              in Inr (map (scoreCell env mode decayK maxDist) results))))"

section \<open>Vocabulary for the statements about the nearest-road search\<close>

text \<open>
  The specification speaks of the samples of a road: for every vertex of the boundary the
  distance to its nearest point on the road, and for every vertex of the road the distance
  to its nearest point on the boundary. The definitions below name them, from the
  primitives alone and not from the iterations above.
\<close>

definition verticesOf :: "turf \<Rightarrow> geojson_feature \<Rightarrow> position list" where
  "verticesOf env f = (case turfExplode env f of Inl e \<Rightarrow> [] | Inr pts \<Rightarrow> pts)"

definition sampleDists :: "turf \<Rightarrow> geojson_feature \<Rightarrow> position list \<Rightarrow> jsnum list" where
  "sampleDists env line pts =
     concat (map (\<lambda>pt. case turfNearestPointOnLine env line pt of
                          Inl e \<Rightarrow> []
                        | Inr n \<Rightarrow> (case guardedDist n of None \<Rightarrow> [] | Some (np, d) \<Rightarrow> [d])) pts)"

definition candidateDists :: "turf \<Rightarrow> geojson_feature \<Rightarrow> geojson_feature \<Rightarrow> jsnum list" where
  "candidateDists env boundary road =
     sampleDists env road (verticesOf env boundary) @ sampleDists env boundary (verticesOf env road)"

text \<open>
  \<open>m\<close> is the minimum of the distances \<open>ds\<close>: no distance is below it, and it is one of them or
  \<^verbatim>\<open>Infinity\<close>, the minimum of no numbers. At most one \<open>m\<close> is the minimum of \<open>ds\<close>.
\<close>

definition isMinimumOf :: "jsnum \<Rightarrow> jsnum list \<Rightarrow> bool" where
  "isMinimumOf m ds = (m \<noteq> NaN \<and> list_all (\<lambda>d. \<not> js_lt d m) ds \<and> (m = Infinity \<or> m \<in> set ds))"

definition nearestAt :: "turf \<Rightarrow> geojson_feature \<Rightarrow> position \<Rightarrow> position option" where
  "nearestAt env line pt =
     (case turfNearestPointOnLine env line pt of
        Inr (Some np) \<Rightarrow> Some (np_coordinates np)
      | _ \<Rightarrow> None)"

text \<open>
  \<open>bp\<close> on the boundary side and \<open>rp\<close> on the road side form a sample: \<open>bp\<close> is a vertex of the
  boundary and \<open>rp\<close> its nearest point on the road, or \<open>rp\<close> is a vertex of the road and \<open>bp\<close>
  its nearest point on the boundary.
\<close>

definition connects :: "turf \<Rightarrow> geojson_feature \<Rightarrow> geojson_feature \<Rightarrow> position \<Rightarrow> position \<Rightarrow> bool" where
  "connects env boundary road bp rp =
     ((bp \<in> set (verticesOf env boundary) \<and> nearestAt env road bp = Some rp) \<or>
      (rp \<in> set (verticesOf env road) \<and> nearestAt env boundary rp = Some bp))"

text \<open>
  The geometries from which step 1 of the search extracts no boundary line: a MultiPolygon
  without parts, and the geometry types the function does not look at.
\<close>

definition noBoundaryGeometry :: "geojson_feature \<Rightarrow> bool" where
  "noBoundaryGeometry f =
     (case geometry f of
        Some (MultiPolygon []) \<Rightarrow> True
      | Some (LineString cs) \<Rightarrow> True
      | Some (Point p) \<Rightarrow> True
      | Some GeometryCollection \<Rightarrow> True
      | _ \<Rightarrow> False)"

section \<open>Vocabulary for the statements about the grid\<close>

text \<open>
  The cells of a MultiPolygon clip result: the polygon of each part, in order, up to the
  first part that \<^verbatim>\<open>polygon\<close> rejects.
\<close>

fun partCells :: "turf \<Rightarrow> ring list list \<Rightarrow> geojson_feature list" where
  "partCells env [] = []"
| "partCells env (coords # rest) =
     (case polygon env coords of
        Inl e \<Rightarrow> []
      | Inr p \<Rightarrow> p # partCells env rest)"

text \<open>
  The cells of one tile: none when the tile does not intersect the boundary or the clip
  fails or is empty, the clip itself when it is a Polygon, and the cells of its parts when
  it is a MultiPolygon.
\<close>

definition tileCells :: "turf \<Rightarrow> geojson_feature \<Rightarrow> geojson_feature \<Rightarrow> geojson_feature list" where
  "tileCells env boundary tile =
     (case turfBooleanIntersects env tile boundary of
        Inr True \<Rightarrow>
          (case turfIntersect env [tile, boundary] of
             Inr (Some clipped) \<Rightarrow>
               (case geometry clipped of
                  Some (Polygon rs) \<Rightarrow> [clipped]
                | Some (MultiPolygon parts) \<Rightarrow> partCells env parts
                | _ \<Rightarrow> [])
           | _ \<Rightarrow> [])
      | _ \<Rightarrow> [])"

section \<open>A planar instance of the library\<close>

text \<open>
  To run the module on examples the record of primitives needs a value. \<open>planar\<close> is a small
  instance on the plane. It does what the library does where the examples below depend on
  it: \<^verbatim>\<open>polygon\<close> and \<^verbatim>\<open>lineString\<close> reject short or unclosed input and otherwise wrap the
  coordinates they are given, \<^verbatim>\<open>lineString(undefined)\<close> is a \<^verbatim>\<open>TypeError\<close>, the area of a polygon
  is the area of its first ring less the areas of its other rings, and a negative length is
  rejected by the grid. Distances are taken to the vertices of a line and measured along
  the axes, which keeps every example rational.
\<close>

fun ringArea :: "ring \<Rightarrow> real" where
  "ringArea (p # q # ps) = (p ! 0 * q ! 1 - q ! 0 * p ! 1) / 2 + ringArea (q # ps)"
| "ringArea _ = 0"

definition planarPolygon :: "ring list \<Rightarrow> js_error + geojson_feature" where
  "planarPolygon coords =
     (if list_ex (\<lambda>r. length r < 4) coords
      then Inl (Thrown ''Each LinearRing of a Polygon must have 4 or more Positions.'')
      else if list_ex (\<lambda>r. last r \<noteq> hd r) coords
      then Inl (Thrown ''First and last Position are not equivalent.'')
      else Inr \<lparr>geometry = Some (Polygon coords), properties = []\<rparr>)"

definition planarLineString :: "ring option \<Rightarrow> js_error + geojson_feature" where
  "planarLineString coords =
     (case coords of
        None \<Rightarrow> Inl TypeError
      | Some cs \<Rightarrow>
          if length cs < 2
          then Inl (Thrown ''coordinates must be an array of two or more positions'')
          else Inr \<lparr>geometry = Some (LineString cs), properties = []\<rparr>)"

definition planarArea :: "geojson_feature \<Rightarrow> js_error + real" where
  "planarArea f =
     (case geometry f of
        Some (Polygon (outer # holes)) \<Rightarrow>
          Inr (\<bar>ringArea outer\<bar> - sum_list (map (\<lambda>h. \<bar>ringArea h\<bar>) holes))
      | _ \<Rightarrow> Inr 0)"

definition planarExplode :: "geojson_feature \<Rightarrow> js_error + position list" where
  "planarExplode f =
     (case geometry f of
        Some (Polygon rs) \<Rightarrow> Inr (concat rs)
      | Some (MultiPolygon ps) \<Rightarrow> Inr (concat (concat ps))
      | Some (LineString cs) \<Rightarrow> Inr cs
      | Some (Point p) \<Rightarrow> Inr [p]
      | _ \<Rightarrow> Inl (Thrown ''coordinates must only contain numbers''))"

definition axisDistance :: "position \<Rightarrow> position \<Rightarrow> real" where
  "axisDistance p q = \<bar>p ! 0 - q ! 0\<bar> + \<bar>p ! 1 - q ! 1\<bar>"

fun nearestVertex :: "position \<Rightarrow> position list \<Rightarrow> position \<times> jsnum \<Rightarrow> position \<times> jsnum" where
  "nearestVertex pt [] best = best"
| "nearestVertex pt (v # vs) best =
     nearestVertex pt vs
       (if js_lt (Num (axisDistance pt v)) (snd best) then (v, Num (axisDistance pt v)) else best)"

definition planarNearestPointOnLine :: "geojson_feature \<Rightarrow> position \<Rightarrow> js_error + nearest_point option" where
  "planarNearestPointOnLine line pt =
     (case geometry line of
        Some (LineString cs) \<Rightarrow>
          (case nearestVertex pt cs ([], Infinity) of
             (c, d) \<Rightarrow> Inr (Some \<lparr>np_coordinates = c, np_properties = Some \<lparr>np_dist = Some d\<rparr>\<rparr>))
      | _ \<Rightarrow> Inl (Thrown ''lines is required''))"

definition planarBbox :: "geojson_feature \<Rightarrow> js_error + real list" where
  "planarBbox f =
     (case planarExplode f of
        Inr (p # ps) \<Rightarrow>
          Inr [fold min (map (\<lambda>q. q ! 0) ps) (p ! 0), fold min (map (\<lambda>q. q ! 1) ps) (p ! 1),
               fold max (map (\<lambda>q. q ! 0) ps) (p ! 0), fold max (map (\<lambda>q. q ! 1) ps) (p ! 1)]
      | _ \<Rightarrow> Inl (Thrown ''no coordinates''))"

text \<open>A grid of one tile, the bounding box itself.\<close>

definition planarSquareGrid :: "real list \<Rightarrow> real \<Rightarrow> js_error + geojson_feature list" where
  "planarSquareGrid bbox cellSide =
     (if cellSide < 0 then Inl (Thrown ''length must be a positive number'')
      else
        (case bbox of
           [w, s, e, n] \<Rightarrow>
             Inr [\<lparr>geometry = Some (Polygon [[[w, s], [w, n], [e, n], [e, s], [w, s]]]), properties = []\<rparr>]
         | _ \<Rightarrow> Inl (Thrown ''bbox must be an array of four numbers'')))"

text \<open>The only tile is the bounding box of the boundary, so the clip is the boundary.\<close>

definition planarIntersect :: "geojson_feature list \<Rightarrow> js_error + geojson_feature option" where
  "planarIntersect fs =
     (case fs of
        [cell, boundary] \<Rightarrow> Inr (Some boundary)
      | _ \<Rightarrow> Inl (Thrown ''Must specify at least 2 geometries''))"

definition planarCentroid :: "geojson_feature \<Rightarrow> js_error + position" where
  "planarCentroid f =
     (case planarExplode f of
        Inr (p # ps) \<Rightarrow>
          Inr [sum_list (map (\<lambda>q. q ! 0) (p # ps)) / real (length (p # ps)),
               sum_list (map (\<lambda>q. q ! 1) (p # ps)) / real (length (p # ps))]
      | _ \<Rightarrow> Inl (Thrown ''no coordinates''))"

definition planarPointToLineDistance :: "position \<Rightarrow> geojson_feature \<Rightarrow> js_error + real" where
  "planarPointToLineDistance pt line =
     (case geometry line of
        Some (LineString (c # cs)) \<Rightarrow> Inr (fold min (map (axisDistance pt) cs) (axisDistance pt c))
      | _ \<Rightarrow> Inl (Thrown ''line is required''))"

text \<open>
  The exponential with the underflow of binary64: no positive binary64 number is below
  \<open>2 ^ -1074\<close>, so \<^verbatim>\<open>Math.exp\<close> returns 0 for every argument below -746. Rounding above that
  bound is left out.
\<close>

definition planarExp :: "real \<Rightarrow> real" where
  "planarExp x = (if x < - 746 then 0 else exp x)"

definition planar :: turf where
  "planar =
     \<lparr>polygon = planarPolygon,
      lineString = planarLineString,
      turfArea = planarArea,
      turfBbox = planarBbox,
      turfExplode = planarExplode,
      turfNearestPointOnLine = planarNearestPointOnLine,
      turfSquareGrid = planarSquareGrid,
      turfBooleanIntersects = (\<lambda>a b. Inr True),
      turfIntersect = planarIntersect,
      turfCentroid = planarCentroid,
      turfPointToLineDistance = planarPointToLineDistance,
      colorScale = (\<lambda>t. if t \<le> 1 / 2 then ''warm'' else ''cool''),
      mathExp = planarExp\<rparr>"

subsection \<open>Example data\<close>

definition polygonOf :: "ring list \<Rightarrow> geojson_feature" where
  "polygonOf coords = \<lparr>geometry = Some (Polygon coords), properties = []\<rparr>"

definition lineOf :: "position list \<Rightarrow> geojson_feature" where
  "lineOf cs = \<lparr>geometry = Some (LineString cs), properties = []\<rparr>"

text \<open>The unit square of the specification's end-to-end scenario.\<close>

definition unitSquare :: "ring list" where
  "unitSquare = [[[0, 0], [1, 0], [1, 1], [0, 1], [0, 0]]]"

text \<open>A 10 by 10 square with an 8 by 8 hole (area 36), and a 7 by 7 square (area 49).\<close>

definition donut :: "ring list" where
  "donut = [[[0, 0], [10, 0], [10, 10], [0, 10], [0, 0]],
            [[1, 1], [9, 1], [9, 9], [1, 9], [1, 1]]]"

definition block :: "ring list" where
  "block = [[[20, 0], [27, 0], [27, 7], [20, 7], [20, 0]]]"

definition twoParts :: geojson_feature where
  "twoParts = \<lparr>geometry = Some (MultiPolygon [donut, block]), properties = []\<rparr>"

text \<open>Three roads: the first two are both at distance 1 from the unit square.\<close>

definition exampleRoads :: "geojson_feature list" where
  "exampleRoads = [lineOf [[2, 0], [2, 1]], lineOf [[0, 2], [1, 2]], lineOf [[5, 5], [6, 5]]]"

definition unitBoundary :: geojson_feature where
  "unitBoundary = lineOf (hd unitSquare)"

definition nearestRoad :: closest_road_result where
  "nearestRoad = \<lparr>roadIndex = 0, distanceMeters = Num 1, connection = [[1, 0], [2, 0]]\<rparr>"

definition emptyMultiPolygon :: geojson_feature where
  "emptyMultiPolygon = \<lparr>geometry = Some (MultiPolygon []), properties = []\<rparr>"

definition exampleCells :: "geojson_feature list" where
  "exampleCells = [polygonOf unitSquare, polygonOf block]"

definition exampleRoad :: geojson_feature where
  "exampleRoad = lineOf [[2, 0], [2, 1]]"

text \<open>The two example cells with their distances from the example road.\<close>

definition measuredCells :: "cell_value list" where
  "measuredCells =
     [\<lparr>feature = polygonOf unitSquare, distance = 2, cellValue = 0, color = []\<rparr>,
      \<lparr>feature = polygonOf block, distance = 113 / 5, cellValue = 0, color = []\<rparr>]"

text \<open>The bounding box of the unit square, the only tile of its grid.\<close>

definition unitTile :: geojson_feature where
  "unitTile = polygonOf [[[0, 0], [0, 1], [1, 1], [1, 0], [0, 0]]]"

text \<open>A Polygon whose only ring has a single position.\<close>

definition shortRing :: "ring list" where
  "shortRing = [[[0, 0]]]"

text \<open>A library whose grid has no tiles.\<close>

definition tileless :: turf where
  "tileless = planar\<lparr>turfSquareGrid := (\<lambda>bbox cellSide. Inr [])\<rparr>"

text \<open>A library whose clip of every tile falls into two parts.\<close>

definition splitting :: turf where
  "splitting = planar\<lparr>turfIntersect := (\<lambda>fs. Inr (Some \<lparr>geometry = Some (MultiPolygon [unitSquare, block]), properties = []\<rparr>))\<rparr>"

section \<open>Properties of normalizePolygon\<close>

text \<open>
  The loop over the parts of a MultiPolygon, started from any \<open>(maxArea, maxPolyCoords)\<close>:
  either no part beats the initial maximum and the state is unchanged, or the state holds the
  first part of maximum area.
\<close>

lemma forEachE_normalize:
  assumes "\<forall>p\<in>set ps. \<exists>a. partArea env p = Inr a"
  shows "\<exists>m b. forEachE (normalizeStep env) ps (m0, b0) = Inr (m, b) \<and>
           ((m = m0 \<and> b = b0 \<and> (\<forall>j<length ps. \<forall>a. partArea env (ps ! j) = Inr a \<longrightarrow> a \<le> m0))
            \<or> (\<exists>i<length ps. b = Some (ps ! i) \<and> partArea env (ps ! i) = Inr m \<and> m0 < m
                  \<and> (\<forall>j<i. \<forall>a. partArea env (ps ! j) = Inr a \<longrightarrow> a < m)
                  \<and> (\<forall>j<length ps. \<forall>a. partArea env (ps ! j) = Inr a \<longrightarrow> a \<le> m)))"
  using assms
proof (induction ps arbitrary: m0 b0)
  case Nil
  then show ?case by simp
next
  case (Cons p ps)
  from Cons.prems obtain a where a: "partArea env p = Inr a" by auto
  from Cons.prems have rest: "\<forall>p\<in>set ps. \<exists>a. partArea env p = Inr a" by simp
  show ?case
  proof (cases "a > m0")
    case True
    from Cons.IH [OF rest, of a "Some p"] obtain m b where
      run: "forEachE (normalizeStep env) ps (a, Some p) = Inr (m, b)" and
      inv: "(m = a \<and> b = Some p \<and> (\<forall>j<length ps. \<forall>a'. partArea env (ps ! j) = Inr a' \<longrightarrow> a' \<le> a))
            \<or> (\<exists>i<length ps. b = Some (ps ! i) \<and> partArea env (ps ! i) = Inr m \<and> a < m
                  \<and> (\<forall>j<i. \<forall>a. partArea env (ps ! j) = Inr a \<longrightarrow> a < m)
                  \<and> (\<forall>j<length ps. \<forall>a. partArea env (ps ! j) = Inr a \<longrightarrow> a \<le> m))"
      by blast
    have step: "forEachE (normalizeStep env) (p # ps) (m0, b0) = Inr (m, b)"
      using a True run by (simp add: normalizeStep_def)
    from inv show ?thesis
    proof
      assume h: "m = a \<and> b = Some p \<and> (\<forall>j<length ps. \<forall>a'. partArea env (ps ! j) = Inr a' \<longrightarrow> a' \<le> a)"
      have "\<forall>j<length (p # ps). \<forall>a'. partArea env ((p # ps) ! j) = Inr a' \<longrightarrow> a' \<le> m"
        using h a by (auto simp: nth_Cons split: nat.splits)
      with h a True step show ?thesis
        by (intro exI [of _ m] exI [of _ b]) (auto intro!: exI [of _ 0])
    next
      assume "\<exists>i<length ps. b = Some (ps ! i) \<and> partArea env (ps ! i) = Inr m \<and> a < m
                  \<and> (\<forall>j<i. \<forall>a. partArea env (ps ! j) = Inr a \<longrightarrow> a < m)
                  \<and> (\<forall>j<length ps. \<forall>a. partArea env (ps ! j) = Inr a \<longrightarrow> a \<le> m)"
      then obtain i where i: "i < length ps" "b = Some (ps ! i)" "partArea env (ps ! i) = Inr m" "a < m"
        "\<forall>j<i. \<forall>a. partArea env (ps ! j) = Inr a \<longrightarrow> a < m"
        "\<forall>j<length ps. \<forall>a. partArea env (ps ! j) = Inr a \<longrightarrow> a \<le> m" by blast
      have e: "\<forall>j<Suc i. \<forall>a'. partArea env ((p # ps) ! j) = Inr a' \<longrightarrow> a' < m"
        using i a by (auto simp: nth_Cons split: nat.splits)
      have l: "\<forall>j<length (p # ps). \<forall>a'. partArea env ((p # ps) ! j) = Inr a' \<longrightarrow> a' \<le> m"
        using i a by (auto simp: nth_Cons split: nat.splits)
      have "Suc i < length (p # ps) \<and> b = Some ((p # ps) ! Suc i) \<and> partArea env ((p # ps) ! Suc i) = Inr m \<and> m0 < m"
        using i True by simp
      with e l step show ?thesis by blast
    qed
  next
    case False
    from Cons.IH [OF rest, of m0 b0] obtain m b where
      run: "forEachE (normalizeStep env) ps (m0, b0) = Inr (m, b)" and
      inv: "(m = m0 \<and> b = b0 \<and> (\<forall>j<length ps. \<forall>a'. partArea env (ps ! j) = Inr a' \<longrightarrow> a' \<le> m0))
            \<or> (\<exists>i<length ps. b = Some (ps ! i) \<and> partArea env (ps ! i) = Inr m \<and> m0 < m
                  \<and> (\<forall>j<i. \<forall>a. partArea env (ps ! j) = Inr a \<longrightarrow> a < m)
                  \<and> (\<forall>j<length ps. \<forall>a. partArea env (ps ! j) = Inr a \<longrightarrow> a \<le> m))"
      by blast
    have step: "forEachE (normalizeStep env) (p # ps) (m0, b0) = Inr (m, b)"
      using a False run by (simp add: normalizeStep_def)
    from inv show ?thesis
    proof
      assume h: "m = m0 \<and> b = b0 \<and> (\<forall>j<length ps. \<forall>a'. partArea env (ps ! j) = Inr a' \<longrightarrow> a' \<le> m0)"
      have "\<forall>j<length (p # ps). \<forall>a'. partArea env ((p # ps) ! j) = Inr a' \<longrightarrow> a' \<le> m0"
        using h a False by (auto simp: nth_Cons split: nat.splits)
      with h step show ?thesis by blast
    next
      assume "\<exists>i<length ps. b = Some (ps ! i) \<and> partArea env (ps ! i) = Inr m \<and> m0 < m
                  \<and> (\<forall>j<i. \<forall>a. partArea env (ps ! j) = Inr a \<longrightarrow> a < m)
                  \<and> (\<forall>j<length ps. \<forall>a. partArea env (ps ! j) = Inr a \<longrightarrow> a \<le> m)"
      then obtain i where i: "i < length ps" "b = Some (ps ! i)" "partArea env (ps ! i) = Inr m" "m0 < m"
        "\<forall>j<i. \<forall>a. partArea env (ps ! j) = Inr a \<longrightarrow> a < m"
        "\<forall>j<length ps. \<forall>a. partArea env (ps ! j) = Inr a \<longrightarrow> a \<le> m" by blast
      have e: "\<forall>j<Suc i. \<forall>a'. partArea env ((p # ps) ! j) = Inr a' \<longrightarrow> a' < m"
        using i a False by (auto simp: nth_Cons split: nat.splits)
      have l: "\<forall>j<length (p # ps). \<forall>a'. partArea env ((p # ps) ! j) = Inr a' \<longrightarrow> a' \<le> m"
        using i a False by (auto simp: nth_Cons split: nat.splits)
      have "Suc i < length (p # ps) \<and> b = Some ((p # ps) ! Suc i) \<and> partArea env ((p # ps) ! Suc i) = Inr m \<and> m0 < m"
        using i by simp
      with e l step show ?thesis by blast
    qed
  qed
qed

text \<open>Evaluations on the planar instance.\<close>

lemma planar_polygon_contract:
  "\<forall>c p. polygon planar c = Inr p \<longrightarrow> (\<exists>rs. geometry p = Some (Polygon rs))"
  by (auto simp: planar_def planarPolygon_def split: if_splits)

lemma normalize_twoParts:
  "normalizePolygon planar (Some twoParts) = Inr (Some (polygonOf block))"
  by (simp add: normalizePolygon_def twoParts_def normalizeStep_def partArea_def planar_def
      planarPolygon_def planarArea_def donut_def block_def polygonOf_def)

lemma planar_areas:
  "partArea planar [hd donut] = Inr 100" "partArea planar [hd block] = Inr 49"
  "partArea planar donut = Inr 36" "partArea planar block = Inr 49"
  by (simp_all add: partArea_def planar_def planarPolygon_def planarArea_def donut_def block_def)


text \<open>
  C7. A feature whose geometry is a Polygon is returned unchanged. Hence normalizing is
  idempotent wherever it returns: if \<open>normalizePolygon\<close> returns \<open>y\<close> (a feature or null)
  then normalizing \<open>y\<close> returns \<open>y\<close> again. For a MultiPolygon input the result is built by
  the library's \<^verbatim>\<open>polygon\<close> helper, so this part relies on that helper returning
  features of geometry type Polygon.
\<close>

theorem normalizePolygon_idempotent:
  "(geometry f = Some (Polygon cs) \<longrightarrow> normalizePolygon env (Some f) = Inr (Some f)) \<and>
   ((\<forall>c p. polygon env c = Inr p \<longrightarrow> (\<exists>rs. geometry p = Some (Polygon rs))) \<longrightarrow>
      normalizePolygon env x = Inr y \<longrightarrow> normalizePolygon env y = Inr y)"
proof (intro conjI impI)
  assume "geometry f = Some (Polygon cs)"
  then show "normalizePolygon env (Some f) = Inr (Some f)"
    by (simp add: normalizePolygon_def)
next
  assume contract: "\<forall>c p. polygon env c = Inr p \<longrightarrow> (\<exists>rs. geometry p = Some (Polygon rs))"
    and run: "normalizePolygon env x = Inr y"
  show "normalizePolygon env y = Inr y"
  proof (cases y)
    case None
    then show ?thesis by (simp add: normalizePolygon_def)
  next
    case (Some p)
    have "\<exists>rs. geometry p = Some (Polygon rs)"
      using run Some contract
      by (auto simp: normalizePolygon_def split: option.splits geometry.splits sum.splits prod.splits)
    with Some show ?thesis by (auto simp: normalizePolygon_def)
  qed
qed


theorem normalizePolygon_idempotent_witness:
  "normalizePolygon planar (Some (polygonOf unitSquare)) = Inr (Some (polygonOf unitSquare)) \<and>
   normalizePolygon planar (Some twoParts) = Inr (Some (polygonOf block)) \<and>
   normalizePolygon planar (Some (polygonOf block)) = Inr (Some (polygonOf block))"
  using normalizePolygon_idempotent [of "polygonOf unitSquare" unitSquare planar "Some twoParts" "Some (polygonOf block)"]
    planar_polygon_contract normalize_twoParts
  by (simp add: polygonOf_def)

text \<open>
  C3, as the code has it. A MultiPolygon with no parts gives null. For a MultiPolygon with
  at least one part, where \<^verbatim>\<open>polygon\<close> and \<^verbatim>\<open>turfArea\<close> succeed on every part with an area
  above the initial maximum \<open>-1\<close>, the result is the polygon built from the first part of
  maximum area: no part has a larger area and every earlier part has a strictly smaller
  one. The area of a part is what \<^verbatim>\<open>turfArea\<close> reports for the polygon built from all
  rings of the part.
\<close>

theorem normalizePolygon_largest:
  "(geometry f = Some (MultiPolygon []) \<longrightarrow> normalizePolygon env (Some f) = Inr None) \<and>
   (geometry f = Some (MultiPolygon parts) \<and> parts \<noteq> [] \<and>
    (\<forall>p\<in>set parts. \<exists>a. partArea env p = Inr a \<and> - 1 < a) \<longrightarrow>
      (\<exists>i<length parts. \<exists>p m.
          polygon env (parts ! i) = Inr p \<and>
          normalizePolygon env (Some f) = Inr (Some p) \<and>
          partArea env (parts ! i) = Inr m \<and>
          (\<forall>j<length parts. \<forall>a. partArea env (parts ! j) = Inr a \<longrightarrow> a \<le> m) \<and>
          (\<forall>j<i. \<forall>a. partArea env (parts ! j) = Inr a \<longrightarrow> a < m)))"
proof (intro conjI impI)
  assume "geometry f = Some (MultiPolygon [])"
  then show "normalizePolygon env (Some f) = Inr None"
    by (simp add: normalizePolygon_def)
next
  assume h: "geometry f = Some (MultiPolygon parts) \<and> parts \<noteq> [] \<and>
    (\<forall>p\<in>set parts. \<exists>a. partArea env p = Inr a \<and> - 1 < a)"
  then have all: "\<forall>p\<in>set parts. \<exists>a. partArea env p = Inr a" by blast
  from forEachE_normalize [OF all, of "- 1" None] obtain m b where
    run: "forEachE (normalizeStep env) parts (- 1, None) = Inr (m, b)" and
    inv: "(m = - 1 \<and> b = None \<and> (\<forall>j<length parts. \<forall>a. partArea env (parts ! j) = Inr a \<longrightarrow> a \<le> - 1))
            \<or> (\<exists>i<length parts. b = Some (parts ! i) \<and> partArea env (parts ! i) = Inr m \<and> - 1 < m
                  \<and> (\<forall>j<i. \<forall>a. partArea env (parts ! j) = Inr a \<longrightarrow> a < m)
                  \<and> (\<forall>j<length parts. \<forall>a. partArea env (parts ! j) = Inr a \<longrightarrow> a \<le> m))"
    by blast
  from h have "0 < length parts" by simp
  moreover from h have "\<exists>a. partArea env (parts ! 0) = Inr a \<and> - 1 < a"
    using nth_mem [of 0 parts] by auto
  ultimately have "\<not> (\<forall>j<length parts. \<forall>a. partArea env (parts ! j) = Inr a \<longrightarrow> a \<le> - 1)"
    by force
  with inv obtain i where i: "i < length parts" "b = Some (parts ! i)" "partArea env (parts ! i) = Inr m"
    "\<forall>j<i. \<forall>a. partArea env (parts ! j) = Inr a \<longrightarrow> a < m"
    "\<forall>j<length parts. \<forall>a. partArea env (parts ! j) = Inr a \<longrightarrow> a \<le> m"
    by blast
  from i(3) obtain p where p: "polygon env (parts ! i) = Inr p"
    by (auto simp: partArea_def split: sum.splits)
  have "normalizePolygon env (Some f) = Inr (Some p)"
    using h run i(2) p by (simp add: normalizePolygon_def)
  with i p show "\<exists>i<length parts. \<exists>p m.
          polygon env (parts ! i) = Inr p \<and>
          normalizePolygon env (Some f) = Inr (Some p) \<and>
          partArea env (parts ! i) = Inr m \<and>
          (\<forall>j<length parts. \<forall>a. partArea env (parts ! j) = Inr a \<longrightarrow> a \<le> m) \<and>
          (\<forall>j<i. \<forall>a. partArea env (parts ! j) = Inr a \<longrightarrow> a < m)"
    by blast
qed

theorem normalizePolygon_largest_witness:
  "partArea planar donut = Inr 36 \<and> partArea planar block = Inr 49 \<and>
   normalizePolygon planar (Some twoParts) = Inr (Some (polygonOf block))"
proof -
  have hyp: "geometry twoParts = Some (MultiPolygon [donut, block]) \<and> [donut, block] \<noteq> [] \<and>
    (\<forall>p\<in>set [donut, block]. \<exists>a. partArea planar p = Inr a \<and> - 1 < a)"
    by (simp add: twoParts_def planar_areas)
  with normalizePolygon_largest [of twoParts planar "[donut, block]"]
  obtain i p m where i: "i < length [donut, block]"
    and p: "polygon planar ([donut, block] ! i) = Inr p"
    and r: "normalizePolygon planar (Some twoParts) = Inr (Some p)"
    and m: "partArea planar ([donut, block] ! i) = Inr m"
    and mx: "\<forall>j<length [donut, block]. \<forall>a. partArea planar ([donut, block] ! j) = Inr a \<longrightarrow> a \<le> m"
    by blast
  from mx [rule_format, of 1 49] have "49 \<le> m" by (simp add: planar_areas)
  have "i \<noteq> 0"
  proof
    assume "i = 0"
    with m have "m = 36" by (simp add: planar_areas)
    with \<open>49 \<le> m\<close> show False by simp
  qed
  with i have "i = 1" by simp
  with p have "p = polygonOf block"
    by (simp add: planar_def planarPolygon_def polygonOf_def block_def)
  with r show ?thesis by (simp add: planar_areas)
qed

text \<open>
  C3 as stated, with the area computed from the outer ring only, fails: the outer ring of
  \<open>donut\<close> encloses 100 and that of \<open>block\<close> 49, yet \<open>block\<close> is returned, because the area
  taken is that of the whole part (36 for \<open>donut\<close>, its hole subtracted).
\<close>

theorem normalizePolygon_outer_ring_counterexample:
  "partArea planar [hd donut] = Inr 100 \<and> partArea planar [hd block] = Inr 49 \<and>
   partArea planar donut = Inr 36 \<and>
   normalizePolygon planar (Some twoParts) = Inr (Some (polygonOf block))"
  by (simp add: planar_areas normalize_twoParts)

section \<open>Properties of findClosestRoadAndConnection\<close>

subsection \<open>The comparison of JavaScript numbers\<close>

lemma js_lt_Infinity: "js_lt a Infinity \<longleftrightarrow> (\<exists>x. a = Num x)"
  by (cases a) simp_all

lemma js_lt_irrefl: "\<not> js_lt a a"
  by (cases a) simp_all

lemma js_lt_not_NaN: "js_lt a b \<Longrightarrow> a \<noteq> NaN \<and> b \<noteq> NaN"
  by (cases a; cases b) simp_all

lemma js_lt_trans: "js_lt a b \<Longrightarrow> js_lt b c \<Longrightarrow> js_lt a c"
  by (cases a; cases b; cases c) simp_all

lemma js_lt_below: "js_lt a b \<Longrightarrow> \<not> js_lt c b \<Longrightarrow> c \<noteq> NaN \<Longrightarrow> js_lt a c"
  by (cases a; cases b; cases c) simp_all

lemma js_lt_above: "\<not> js_lt a b \<Longrightarrow> js_lt c b \<Longrightarrow> \<not> js_lt a c"
  by (cases a; cases b; cases c) simp_all


subsection \<open>The minimum of a list of distances is unique\<close>

lemma isMinimumOf_unique:
  assumes "isMinimumOf m ds" and "isMinimumOf m' ds"
  shows "m = m'"
proof -
  from assms have low: "\<forall>d\<in>set ds. \<not> js_lt d m" "\<forall>d\<in>set ds. \<not> js_lt d m'"
    and mem: "m = Infinity \<or> m \<in> set ds" "m' = Infinity \<or> m' \<in> set ds"
    and nn: "m \<noteq> NaN" "m' \<noteq> NaN"
    by (simp_all add: isMinimumOf_def list_all_iff)
  show ?thesis
  proof (cases "m \<in> set ds \<and> m' \<in> set ds")
    case True
    with low have "\<not> js_lt m m'" "\<not> js_lt m' m" by auto
    with nn show ?thesis by (cases m; cases m') simp_all
  next
    case False
    with mem have "m = Infinity \<or> m' = Infinity" by auto
    then show ?thesis
    proof
      assume i: "m = Infinity"
      show ?thesis
      proof (cases "m' \<in> set ds")
        case True
        with low i have "\<not> js_lt m' Infinity" by auto
        with nn i show ?thesis by (cases m') simp_all
      next
        case False
        with mem i show ?thesis by simp
      qed
    next
      assume i: "m' = Infinity"
      show ?thesis
      proof (cases "m \<in> set ds")
        case True
        with low i have "\<not> js_lt m Infinity" by auto
        with nn i show ?thesis by (cases m) simp_all
      next
        case False
        with mem i show ?thesis by simp
      qed
    qed
  qed
qed

subsection \<open>The iterations\<close>

text \<open>
  Both inner iterations have the same shape: the current minimum is replaced by a sample that
  is strictly below it. After the loop no sample of the loop is below the current minimum,
  and the state is either the initial one or a sample of the loop with its connection.
\<close>

lemma sample_loop:
  assumes step: "\<And>cur pt. f cur pt =
      (case turfNearestPointOnLine env line pt of
         Inl e \<Rightarrow> Inl e
       | Inr n \<Rightarrow> Inr (case guardedDist n of
                         None \<Rightarrow> cur
                       | Some (np, d) \<Rightarrow> if js_lt d (fst cur) then (d, mk pt (np_coordinates np)) else cur))"
    and run: "forEachE f pts cur = Inr cur'"
  shows "(\<forall>d\<in>set (sampleDists env line pts). \<not> js_lt d (fst cur')) \<and>
         (cur' = cur \<or>
          (js_lt (fst cur') (fst cur) \<and> fst cur' \<in> set (sampleDists env line pts) \<and>
           (\<exists>pt\<in>set pts. \<exists>c. nearestAt env line pt = Some c \<and> snd cur' = mk pt c)))"
  using run
proof (induction pts arbitrary: cur)
  case Nil
  then show ?case by (simp add: sampleDists_def)
next
  case (Cons pt pts)
  from Cons.prems obtain n where n: "turfNearestPointOnLine env line pt = Inr n"
    by (auto simp: step split: sum.splits)
  define cur1 where "cur1 = (case guardedDist n of
                         None \<Rightarrow> cur
                       | Some (np, d) \<Rightarrow> if js_lt d (fst cur) then (d, mk pt (np_coordinates np)) else cur)"
  have f: "f cur pt = Inr cur1" by (simp add: step n cur1_def)
  with Cons.prems have run: "forEachE f pts cur1 = Inr cur'" by simp
  note ih = Cons.IH [OF run]
  have sd: "sampleDists env line (pt # pts) =
      (case guardedDist n of None \<Rightarrow> [] | Some (np, d) \<Rightarrow> [d]) @ sampleDists env line pts"
    by (simp add: sampleDists_def n)
  have mono: "cur' = cur1 \<or> js_lt (fst cur') (fst cur1)" using ih by blast
  show ?case
  proof (cases "guardedDist n")
    case None
    then have "cur1 = cur" by (simp add: cur1_def)
    with ih None sd show ?thesis by auto
  next
    case (Some a)
    obtain np d where a: "a = (np, d)" by (cases a)
    from Some a have np: "nearestAt env line pt = Some (np_coordinates np)"
      by (auto simp: nearestAt_def n guardedDist_def split: option.splits)
    have sd': "sampleDists env line (pt # pts) = d # sampleDists env line pts"
      using sd Some a by simp
    show ?thesis
    proof (cases "js_lt d (fst cur)")
      case True
      then have c1: "cur1 = (d, mk pt (np_coordinates np))" by (simp add: cur1_def Some a)
      have low: "\<not> js_lt d (fst cur')"
        using mono c1 js_lt_irrefl [of d] js_lt_above [of d d "fst cur'"] by auto
      have "js_lt (fst cur') (fst cur)"
        using mono c1 True js_lt_trans [of "fst cur'" d "fst cur"] by auto
      moreover have "fst cur' \<in> set (sampleDists env line (pt # pts))"
        using ih c1 sd' by auto
      moreover have "\<exists>q\<in>set (pt # pts). \<exists>c. nearestAt env line q = Some c \<and> snd cur' = mk q c"
        using ih c1 np by auto
      ultimately show ?thesis using ih low sd' by auto
    next
      case False
      then have c1: "cur1 = cur" by (simp add: cur1_def Some a)
      have low: "\<not> js_lt d (fst cur')"
        using mono c1 False js_lt_above [of d "fst cur" "fst cur'"] by auto
      show ?thesis using ih c1 low sd' by auto
    qed
  qed
qed

lemma js_lt_asym: "js_lt a b \<Longrightarrow> \<not> js_lt b a"
  by (cases a; cases b) simp_all

lemma js_lt_finite: "js_lt a b \<Longrightarrow> js_lt a Infinity"
  by (cases a; cases b) simp_all

text \<open>
  One road: the distance left by the two iterations is the minimum of the samples of the road,
  and it comes with a two-point connection unless it is still \<^verbatim>\<open>Infinity\<close>.
\<close>

lemma roadMin_result:
  assumes "roadMin env b road = Inr (m, c)"
  shows "isMinimumOf m (candidateDists env b road) \<and>
         ((m = Infinity \<and> c = []) \<or>
          (js_lt m Infinity \<and> (\<exists>bp rp. c = [bp, rp] \<and> connects env b road bp rp)))"
proof -
  from assms obtain bpts cur1 rpts where
    eb: "turfExplode env b = Inr bpts" and
    la: "forEachE (boundarySample env road) bpts (Infinity, []) = Inr cur1" and
    er: "turfExplode env road = Inr rpts" and
    lb: "forEachE (roadSample env b) rpts cur1 = Inr (m, c)"
    by (auto simp: roadMin_def split: sum.splits)
  have vb: "verticesOf env b = bpts" and vr: "verticesOf env road = rpts"
    using eb er by (simp_all add: verticesOf_def)
  have a: "(\<forall>d\<in>set (sampleDists env road bpts). \<not> js_lt d (fst cur1)) \<and>
         (cur1 = (Infinity, []) \<or>
          (js_lt (fst cur1) (fst (Infinity, [])) \<and> fst cur1 \<in> set (sampleDists env road bpts) \<and>
           (\<exists>pt\<in>set bpts. \<exists>c. nearestAt env road pt = Some c \<and> snd cur1 = [pt, c])))"
  proof -
    have "\<And>cur pt. boundarySample env road cur pt =
      (case turfNearestPointOnLine env road pt of
         Inl e \<Rightarrow> Inl e
       | Inr n \<Rightarrow> Inr (case guardedDist n of
                         None \<Rightarrow> cur
                       | Some (np, d) \<Rightarrow> if js_lt d (fst cur) then (d, (\<lambda>pt c. [pt, c]) pt (np_coordinates np)) else cur))"
      by (simp add: boundarySample_def)
    from sample_loop [where mk = "\<lambda>pt c. [pt, c]", OF this la] show ?thesis by simp
  qed
  have b: "(\<forall>d\<in>set (sampleDists env b rpts). \<not> js_lt d (fst (m, c))) \<and>
         ((m, c) = cur1 \<or>
          (js_lt (fst (m, c)) (fst cur1) \<and> fst (m, c) \<in> set (sampleDists env b rpts) \<and>
           (\<exists>pt\<in>set rpts. \<exists>c'. nearestAt env b pt = Some c' \<and> snd (m, c) = [c', pt])))"
  proof -
    have "\<And>cur pt. roadSample env b cur pt =
      (case turfNearestPointOnLine env b pt of
         Inl e \<Rightarrow> Inl e
       | Inr n \<Rightarrow> Inr (case guardedDist n of
                         None \<Rightarrow> cur
                       | Some (np, d) \<Rightarrow> if js_lt d (fst cur) then (d, (\<lambda>pt c. [c, pt]) pt (np_coordinates np)) else cur))"
      by (simp add: roadSample_def)
    from sample_loop [where mk = "\<lambda>pt c. [c, pt]", OF this lb] show ?thesis by simp
  qed
  have cd: "candidateDists env b road = sampleDists env road bpts @ sampleDists env b rpts"
    by (simp add: candidateDists_def vb vr)
  from b have "(m, c) = cur1 \<or> js_lt m (fst cur1)" by auto
  then show ?thesis
  proof
    assume same: "(m, c) = cur1"
    from a have "cur1 = (Infinity, []) \<or> js_lt (fst cur1) Infinity" by auto
    then show ?thesis
    proof
      assume "cur1 = (Infinity, [])"
      with same have mc: "m = Infinity" "c = []" by auto
      have "isMinimumOf m (candidateDists env b road)"
        using a b same mc by (auto simp: isMinimumOf_def list_all_iff cd)
      with mc show ?thesis by simp
    next
      assume fin: "js_lt (fst cur1) Infinity"
      with same have mf: "js_lt m Infinity" by auto
      then have nn: "m \<noteq> NaN" using js_lt_not_NaN by blast
      from a fin same have mem: "m \<in> set (sampleDists env road bpts)"
        and conn: "\<exists>pt\<in>set bpts. \<exists>c'. nearestAt env road pt = Some c' \<and> c = [pt, c']"
        using js_lt_irrefl [of Infinity] by auto
      have "isMinimumOf m (candidateDists env b road)"
        using a b same nn mem by (auto simp: isMinimumOf_def list_all_iff cd)
      moreover from conn have "\<exists>bp rp. c = [bp, rp] \<and> connects env b road bp rp"
        by (auto simp: connects_def vb)
      ultimately show ?thesis using mf by blast
    qed
  next
    assume less: "js_lt m (fst cur1)"
    then have mf: "js_lt m Infinity" by (rule js_lt_finite)
    then have nn: "m \<noteq> NaN" using js_lt_not_NaN by blast
    from b less have mem: "m \<in> set (sampleDists env b rpts)"
      and conn: "\<exists>pt\<in>set rpts. \<exists>c'. nearestAt env b pt = Some c' \<and> c = [c', pt]"
      using js_lt_irrefl [of m] by auto
    have lowa: "\<forall>d\<in>set (sampleDists env road bpts). \<not> js_lt d m"
      using a less js_lt_above by blast
    have "isMinimumOf m (candidateDists env b road)"
      using lowa b nn mem by (auto simp: isMinimumOf_def list_all_iff cd)
    moreover from conn have "\<exists>bp rp. c = [bp, rp] \<and> connects env b road bp rp"
      by (auto simp: connects_def vr)
    ultimately show ?thesis using mf by blast
  qed
qed

lemma roadMin_not_NaN: "roadMin env b road = Inr (m, c) \<Longrightarrow> m \<noteq> NaN"
  using roadMin_result [of env b road m c] by (simp add: isMinimumOf_def)

text \<open>
  The loop over the roads, started at index \<open>k\<close> from any state: either no road is below
  the initial minimum and the state is unchanged, or the state is that of the first road of
  smallest minimum.
\<close>

lemma roadsLoop_inv:
  assumes "roadsLoop env b rs k (g0, i0, c0) = Inr (g, i, c)"
  shows "(\<forall>r\<in>set rs. \<exists>m cc. roadMin env b r = Inr (m, cc)) \<and>
         (((g, i, c) = (g0, i0, c0) \<and>
           (\<forall>r\<in>set rs. \<forall>m cc. roadMin env b r = Inr (m, cc) \<longrightarrow> \<not> js_lt m g0)) \<or>
          (\<exists>pre road post. rs = pre @ road # post \<and> i = k + int (length pre) \<and>
             roadMin env b road = Inr (g, c) \<and> js_lt g g0 \<and>
             (\<forall>r\<in>set pre. \<forall>m cc. roadMin env b r = Inr (m, cc) \<longrightarrow> js_lt g m) \<and>
             (\<forall>r\<in>set rs. \<forall>m cc. roadMin env b r = Inr (m, cc) \<longrightarrow> \<not> js_lt m g)))"
  using assms
proof (induction rs arbitrary: k g0 i0 c0)
  case Nil
  then show ?case by simp
next
  case (Cons x rs)
  from Cons.prems obtain m1 c1 where x: "roadMin env b x = Inr (m1, c1)"
    by (auto simp: roadStep_def split: sum.splits)
  have nn: "m1 \<noteq> NaN" using x by (rule roadMin_not_NaN)
  show ?case
  proof (cases "js_lt m1 g0")
    case True
    with Cons.prems x have run: "roadsLoop env b rs (k + 1) (m1, k, c1) = Inr (g, i, c)"
      by (simp add: roadStep_def)
    from Cons.IH [OF run] have
      ok: "\<forall>r\<in>set rs. \<exists>m cc. roadMin env b r = Inr (m, cc)" and
      inv: "((g, i, c) = (m1, k, c1) \<and>
           (\<forall>r\<in>set rs. \<forall>m cc. roadMin env b r = Inr (m, cc) \<longrightarrow> \<not> js_lt m m1)) \<or>
          (\<exists>pre road post. rs = pre @ road # post \<and> i = k + 1 + int (length pre) \<and>
             roadMin env b road = Inr (g, c) \<and> js_lt g m1 \<and>
             (\<forall>r\<in>set pre. \<forall>m cc. roadMin env b r = Inr (m, cc) \<longrightarrow> js_lt g m) \<and>
             (\<forall>r\<in>set rs. \<forall>m cc. roadMin env b r = Inr (m, cc) \<longrightarrow> \<not> js_lt m g))"
      by blast+
    from inv have "\<exists>pre road post. x # rs = pre @ road # post \<and> i = k + int (length pre) \<and>
             roadMin env b road = Inr (g, c) \<and> js_lt g g0 \<and>
             (\<forall>r\<in>set pre. \<forall>m cc. roadMin env b r = Inr (m, cc) \<longrightarrow> js_lt g m) \<and>
             (\<forall>r\<in>set (x # rs). \<forall>m cc. roadMin env b r = Inr (m, cc) \<longrightarrow> \<not> js_lt m g)"
    proof
      assume h: "(g, i, c) = (m1, k, c1) \<and>
           (\<forall>r\<in>set rs. \<forall>m cc. roadMin env b r = Inr (m, cc) \<longrightarrow> \<not> js_lt m m1)"
      have "x # rs = [] @ x # rs \<and> i = k + int (length ([] :: geojson_feature list)) \<and>
             roadMin env b x = Inr (g, c) \<and> js_lt g g0 \<and>
             (\<forall>r\<in>set []. \<forall>m cc. roadMin env b r = Inr (m, cc) \<longrightarrow> js_lt g m) \<and>
             (\<forall>r\<in>set (x # rs). \<forall>m cc. roadMin env b r = Inr (m, cc) \<longrightarrow> \<not> js_lt m g)"
        using h x True js_lt_irrefl [of m1] by auto
      then show ?thesis by blast
    next
      assume "\<exists>pre road post. rs = pre @ road # post \<and> i = k + 1 + int (length pre) \<and>
             roadMin env b road = Inr (g, c) \<and> js_lt g m1 \<and>
             (\<forall>r\<in>set pre. \<forall>m cc. roadMin env b r = Inr (m, cc) \<longrightarrow> js_lt g m) \<and>
             (\<forall>r\<in>set rs. \<forall>m cc. roadMin env b r = Inr (m, cc) \<longrightarrow> \<not> js_lt m g)"
      then obtain pre road post where p: "rs = pre @ road # post" "i = k + 1 + int (length pre)"
        "roadMin env b road = Inr (g, c)" "js_lt g m1"
        "\<forall>r\<in>set pre. \<forall>m cc. roadMin env b r = Inr (m, cc) \<longrightarrow> js_lt g m"
        "\<forall>r\<in>set rs. \<forall>m cc. roadMin env b r = Inr (m, cc) \<longrightarrow> \<not> js_lt m g"
        by blast
      have "x # rs = (x # pre) @ road # post \<and> i = k + int (length (x # pre)) \<and>
             roadMin env b road = Inr (g, c) \<and> js_lt g g0 \<and>
             (\<forall>r\<in>set (x # pre). \<forall>m cc. roadMin env b r = Inr (m, cc) \<longrightarrow> js_lt g m) \<and>
             (\<forall>r\<in>set (x # rs). \<forall>m cc. roadMin env b r = Inr (m, cc) \<longrightarrow> \<not> js_lt m g)"
        using p x True js_lt_trans [of g m1 g0] js_lt_asym [of g m1] by auto
      then show ?thesis by blast
    qed
    with ok x show ?thesis by auto
  next
    case False
    with Cons.prems x have run: "roadsLoop env b rs (k + 1) (g0, i0, c0) = Inr (g, i, c)"
      by (simp add: roadStep_def)
    from Cons.IH [OF run] have
      ok: "\<forall>r\<in>set rs. \<exists>m cc. roadMin env b r = Inr (m, cc)" and
      inv: "((g, i, c) = (g0, i0, c0) \<and>
           (\<forall>r\<in>set rs. \<forall>m cc. roadMin env b r = Inr (m, cc) \<longrightarrow> \<not> js_lt m g0)) \<or>
          (\<exists>pre road post. rs = pre @ road # post \<and> i = k + 1 + int (length pre) \<and>
             roadMin env b road = Inr (g, c) \<and> js_lt g g0 \<and>
             (\<forall>r\<in>set pre. \<forall>m cc. roadMin env b r = Inr (m, cc) \<longrightarrow> js_lt g m) \<and>
             (\<forall>r\<in>set rs. \<forall>m cc. roadMin env b r = Inr (m, cc) \<longrightarrow> \<not> js_lt m g))"
      by blast+
    from inv show ?thesis
    proof
      assume h: "(g, i, c) = (g0, i0, c0) \<and>
           (\<forall>r\<in>set rs. \<forall>m cc. roadMin env b r = Inr (m, cc) \<longrightarrow> \<not> js_lt m g0)"
      with ok x False show ?thesis by auto
    next
      assume "\<exists>pre road post. rs = pre @ road # post \<and> i = k + 1 + int (length pre) \<and>
             roadMin env b road = Inr (g, c) \<and> js_lt g g0 \<and>
             (\<forall>r\<in>set pre. \<forall>m cc. roadMin env b r = Inr (m, cc) \<longrightarrow> js_lt g m) \<and>
             (\<forall>r\<in>set rs. \<forall>m cc. roadMin env b r = Inr (m, cc) \<longrightarrow> \<not> js_lt m g)"
      then obtain pre road post where p: "rs = pre @ road # post" "i = k + 1 + int (length pre)"
        "roadMin env b road = Inr (g, c)" "js_lt g g0"
        "\<forall>r\<in>set pre. \<forall>m cc. roadMin env b r = Inr (m, cc) \<longrightarrow> js_lt g m"
        "\<forall>r\<in>set rs. \<forall>m cc. roadMin env b r = Inr (m, cc) \<longrightarrow> \<not> js_lt m g"
        by blast
      have "x # rs = (x # pre) @ road # post \<and> i = k + int (length (x # pre)) \<and>
             roadMin env b road = Inr (g, c) \<and> js_lt g g0 \<and>
             (\<forall>r\<in>set (x # pre). \<forall>m cc. roadMin env b r = Inr (m, cc) \<longrightarrow> js_lt g m) \<and>
             (\<forall>r\<in>set (x # rs). \<forall>m cc. roadMin env b r = Inr (m, cc) \<longrightarrow> \<not> js_lt m g)"
        using p x False nn js_lt_below [of g g0 m1] js_lt_above [of m1 g0 g] by auto
      then have "\<exists>pre road post. x # rs = pre @ road # post \<and> i = k + int (length pre) \<and>
             roadMin env b road = Inr (g, c) \<and> js_lt g g0 \<and>
             (\<forall>r\<in>set pre. \<forall>m cc. roadMin env b r = Inr (m, cc) \<longrightarrow> js_lt g m) \<and>
             (\<forall>r\<in>set (x # rs). \<forall>m cc. roadMin env b r = Inr (m, cc) \<longrightarrow> \<not> js_lt m g)"
        by blast
      with ok x show ?thesis by auto
    qed
  qed
qed

subsection \<open>Evaluations on the planar instance\<close>

lemma planar_boundary: "boundaryLines planar (polygonOf unitSquare) = Inr [unitBoundary]"
  by (simp add: boundaryLines_def polygonOf_def unitSquare_def first_def planar_def
      planarLineString_def unitBoundary_def lineOf_def)

lemma planar_roadMin:
  "roadMin planar unitBoundary (exampleRoads ! 0) = Inr (Num 1, [[1, 0], [2, 0]])"
  "roadMin planar unitBoundary (exampleRoads ! 1) = Inr (Num 1, [[1, 1], [1, 2]])"
  "roadMin planar unitBoundary (exampleRoads ! 2) = Inr (Num 8, [[1, 1], [5, 5]])"
  by (simp_all add: roadMin_def exampleRoads_def unitBoundary_def unitSquare_def lineOf_def
      planar_def planarExplode_def boundarySample_def roadSample_def guardedDist_def
      planarNearestPointOnLine_def axisDistance_def)

lemma planar_findClosest:
  "findClosestRoadAndConnection planar (Some (polygonOf unitSquare)) (Some exampleRoads) = Inr (Some nearestRoad)"
  using planar_roadMin
  by (simp add: findClosestRoadAndConnection_def planar_boundary roadStep_def nearestRoad_def exampleRoads_def)

subsection \<open>The result of the search\<close>

lemma findClosest_Some:
  assumes "findClosestRoadAndConnection env polygonFeature roads = Inr (Some r)"
  shows "\<exists>pf rs b bs pre road post.
           polygonFeature = Some pf \<and> roads = Some rs \<and> boundaryLines env pf = Inr (b # bs) \<and>
           rs = pre @ road # post \<and> roadIndex r = int (length pre) \<and>
           roadMin env b road = Inr (distanceMeters r, connection r) \<and>
           js_lt (distanceMeters r) Infinity \<and>
           (\<forall>x\<in>set pre. \<forall>m cc. roadMin env b x = Inr (m, cc) \<longrightarrow> js_lt (distanceMeters r) m) \<and>
           (\<forall>x\<in>set rs. \<exists>m cc. roadMin env b x = Inr (m, cc) \<and> \<not> js_lt m (distanceMeters r))"
proof -
  from assms obtain pf rs b bs g i c where
    pf: "polygonFeature = Some pf" and rs: "roads = Some rs" and
    bl: "boundaryLines env pf = Inr (b # bs)" and
    run: "roadsLoop env b rs 0 (Infinity, - 1, []) = Inr (g, i, c)" and
    i: "i \<noteq> - 1" and
    r: "r = \<lparr>roadIndex = i, distanceMeters = g, connection = c\<rparr>"
    by (auto simp: findClosestRoadAndConnection_def
        split: option.splits if_splits sum.splits list.splits prod.splits)
  from roadsLoop_inv [OF run] i obtain pre road post where
    p: "rs = pre @ road # post" "i = 0 + int (length pre)"
      "roadMin env b road = Inr (g, c)" "js_lt g Infinity"
      "\<forall>x\<in>set pre. \<forall>m cc. roadMin env b x = Inr (m, cc) \<longrightarrow> js_lt g m"
      "\<forall>x\<in>set rs. \<forall>m cc. roadMin env b x = Inr (m, cc) \<longrightarrow> \<not> js_lt m g"
    and ok: "\<forall>x\<in>set rs. \<exists>m cc. roadMin env b x = Inr (m, cc)"
    by auto
  from ok p(6) have "\<forall>x\<in>set rs. \<exists>m cc. roadMin env b x = Inr (m, cc) \<and> \<not> js_lt m g"
    by blast
  with pf rs bl p r show ?thesis by auto
qed






text \<open>
  C10. Every result is well formed: \<open>0 \<le> roadIndex < roads.length\<close>, the distance is a
  number (neither the initial \<^verbatim>\<open>Infinity\<close> nor \<^verbatim>\<open>NaN\<close>), and the connection has exactly two
  points.
\<close>

theorem findClosest_well_formed:
  assumes "findClosestRoadAndConnection env polygonFeature roads = Inr (Some r)"
  shows "\<exists>rs x. roads = Some rs \<and> 0 \<le> roadIndex r \<and> roadIndex r < int (length rs) \<and>
           distanceMeters r = Num x \<and> length (connection r) = 2"
proof -
  from findClosest_Some [OF assms] obtain pf rs b bs pre road post where
    p: "roads = Some rs" "rs = pre @ road # post" "roadIndex r = int (length pre)"
      "roadMin env b road = Inr (distanceMeters r, connection r)"
      "js_lt (distanceMeters r) Infinity"
    by blast
  from p(5) obtain x where "distanceMeters r = Num x" by (auto simp: js_lt_Infinity)
  moreover from roadMin_result [OF p(4)] p(5) have "length (connection r) = 2"
    using js_lt_irrefl [of Infinity] by auto
  ultimately show ?thesis using p(1,2,3) by auto
qed

theorem findClosest_well_formed_witness:
  "roadIndex nearestRoad = 0 \<and> distanceMeters nearestRoad = Num 1 \<and>
   length (connection nearestRoad) = 2 \<and> length exampleRoads = 3"
  using findClosest_well_formed [OF planar_findClosest]
  by (simp add: nearestRoad_def exampleRoads_def)

lemma boundaryLines_none:
  "noBoundaryGeometry pf \<Longrightarrow> boundaryLines env pf = Inr []"
  by (auto simp: noBoundaryGeometry_def boundaryLines_def split: option.splits geometry.splits list.splits)

text \<open>
  C8, as the code has it. The search returns null, without an exception, when the polygon
  or the road list is absent, when the road list is empty, and when step 1 extracts no
  boundary line: the geometry is a MultiPolygon without parts or neither a Polygon nor a
  MultiPolygon. For a Polygon geometry step 1 always calls \<^verbatim>\<open>lineString(coordinates[0])\<close>;
  for a Polygon without rings the argument is \<^verbatim>\<open>undefined\<close>, and what \<^verbatim>\<open>lineString\<close> throws
  then is thrown by the search.
\<close>

theorem findClosest_null:
  "(polygonFeature = None \<or> roads = None \<or> roads = Some [] \<longrightarrow>
      findClosestRoadAndConnection env polygonFeature roads = Inr None) \<and>
   (noBoundaryGeometry pf \<longrightarrow> findClosestRoadAndConnection env (Some pf) roads' = Inr None) \<and>
   (rs \<noteq> [] \<and> geometry pf' = Some (Polygon []) \<and> lineString env None = Inl e \<longrightarrow>
      findClosestRoadAndConnection env (Some pf') (Some rs) = Inl e) \<and>
   (rs' \<noteq> [] \<and> geometry pf'' = Some (Polygon cs) \<and> lineString env (first cs) = Inl e' \<longrightarrow>
      findClosestRoadAndConnection env (Some pf'') (Some rs') = Inl e')"
proof (intro conjI impI)
  assume "polygonFeature = None \<or> roads = None \<or> roads = Some []"
  then show "findClosestRoadAndConnection env polygonFeature roads = Inr None"
    by (auto simp: findClosestRoadAndConnection_def split: option.splits)
next
  assume "noBoundaryGeometry pf"
  then have "boundaryLines env pf = Inr []" by (rule boundaryLines_none)
  then show "findClosestRoadAndConnection env (Some pf) roads' = Inr None"
    by (simp add: findClosestRoadAndConnection_def split: option.splits)
next
  assume "rs \<noteq> [] \<and> geometry pf' = Some (Polygon []) \<and> lineString env None = Inl e"
  then show "findClosestRoadAndConnection env (Some pf') (Some rs) = Inl e"
    by (simp add: findClosestRoadAndConnection_def boundaryLines_def first_def)
next
  assume "rs' \<noteq> [] \<and> geometry pf'' = Some (Polygon cs) \<and> lineString env (first cs) = Inl e'"
  then show "findClosestRoadAndConnection env (Some pf'') (Some rs') = Inl e'"
    by (simp add: findClosestRoadAndConnection_def boundaryLines_def)
qed

theorem findClosest_null_witness:
  "findClosestRoadAndConnection planar (Some (polygonOf unitSquare)) (Some []) = Inr None \<and>
   findClosestRoadAndConnection planar (Some emptyMultiPolygon) (Some exampleRoads) = Inr None \<and>
   findClosestRoadAndConnection planar (Some (polygonOf [])) (Some exampleRoads) = Inl TypeError \<and>
   findClosestRoadAndConnection planar (Some (polygonOf shortRing)) (Some exampleRoads) =
     Inl (Thrown ''coordinates must be an array of two or more positions'')"
  using findClosest_null [where polygonFeature = "Some (polygonOf unitSquare)" and roads = "Some []"
      and env = planar and pf = emptyMultiPolygon and roads' = "Some exampleRoads"
      and rs = exampleRoads and pf' = "polygonOf []" and e = TypeError
      and rs' = exampleRoads and pf'' = "polygonOf shortRing" and cs = shortRing
      and e' = "Thrown ''coordinates must be an array of two or more positions''"]
  by (simp add: noBoundaryGeometry_def emptyMultiPolygon_def polygonOf_def exampleRoads_def
      planar_def planarLineString_def shortRing_def first_def)

text \<open>
  C8 as stated fails: the outer ring of a Polygon without rings cannot be extracted, and the
  search raises instead of returning null.
\<close>

theorem findClosest_no_ring_counterexample:
  "findClosestRoadAndConnection planar (Some (polygonOf [])) (Some exampleRoads) = Inl TypeError"
  by (simp add: findClosestRoadAndConnection_def boundaryLines_def first_def polygonOf_def
      exampleRoads_def planar_def planarLineString_def)

section \<open>Properties of generateSubdivisionGrid\<close>

text \<open>
  The iteration over the tiles appends, for each tile, the cells of that tile.
\<close>

lemma pushParts_partCells: "pushParts env acc parts = acc @ partCells env parts"
  by (induction parts arbitrary: acc) (auto split: sum.splits)

lemma partCells_all: "map (polygon env) parts = map Inr ps \<Longrightarrow> partCells env parts = ps"
proof (induction parts arbitrary: ps)
  case Nil
  then show ?case by simp
next
  case (Cons coords rest)
  then obtain p ps' where ps: "ps = p # ps'" "polygon env coords = Inr p"
    "map (polygon env) rest = map Inr ps'"
    by (cases ps) auto
  from Cons.IH [OF ps(3)] ps show ?case by simp
qed

lemma partCells_polygons:
  assumes "\<forall>c p. polygon env c = Inr p \<longrightarrow> (\<exists>rs. geometry p = Some (Polygon rs))"
  shows "\<forall>c\<in>set (partCells env parts). \<exists>rs. geometry c = Some (Polygon rs)"
proof (induction parts)
  case Nil
  then show ?case by simp
next
  case (Cons coords rest)
  show ?case
  proof (cases "polygon env coords")
    case (Inl e)
    then show ?thesis by simp
  next
    case (Inr p)
    with assms have "\<exists>rs. geometry p = Some (Polygon rs)" by blast
    with Cons.IH Inr show ?thesis by auto
  qed
qed

lemma tileCells_polygons:
  assumes "\<forall>c p. polygon env c = Inr p \<longrightarrow> (\<exists>rs. geometry p = Some (Polygon rs))"
  shows "\<forall>c\<in>set (tileCells env pf tile). \<exists>rs. geometry c = Some (Polygon rs)"
proof
  fix c assume "c \<in> set (tileCells env pf tile)"
  then obtain clipped g where g: "geometry clipped = Some g"
    and c: "c \<in> set (case g of Polygon rs \<Rightarrow> [clipped]
                         | MultiPolygon parts \<Rightarrow> partCells env parts
                         | _ \<Rightarrow> [])"
    by (auto simp: tileCells_def split: sum.splits bool.splits option.splits intro: that [OF sym])
  show "\<exists>rs. geometry c = Some (Polygon rs)"
  proof (cases g)
    case (Polygon rs)
    with c g show ?thesis by simp
  next
    case (MultiPolygon parts)
    with c partCells_polygons [OF assms, of parts] show ?thesis by simp
  qed (use c in simp_all)
qed

lemma gridStep_tileCells:
  assumes "gridStep env pf acc cell = Inr acc'"
  shows "acc' = acc @ tileCells env pf cell"
proof -
  from assms obtain i where i: "turfBooleanIntersects env cell pf = Inr i"
    and acc': "acc' = (if i then clipCell env pf acc cell else acc)"
    by (auto simp: gridStep_def split: sum.splits)
  show ?thesis
  proof (cases i)
    case True
    with i acc' show ?thesis
      by (auto simp: tileCells_def clipCell_def pushParts_partCells
          split: sum.splits option.splits geometry.splits)
  next
    case False
    with i acc' show ?thesis by (simp add: tileCells_def)
  qed
qed

lemma grid_loop_tileCells:
  "forEachE (gridStep env pf) grid acc = Inr cells \<Longrightarrow>
     cells = acc @ concat (map (tileCells env pf) grid)"
proof (induction grid arbitrary: acc)
  case Nil
  then show ?case by simp
next
  case (Cons cell grid)
  from Cons.prems obtain acc' where s: "gridStep env pf acc cell = Inr acc'"
    and run: "forEachE (gridStep env pf) grid acc' = Inr cells"
    by (auto split: sum.splits)
  from Cons.IH [OF run] gridStep_tileCells [OF s] show ?case by simp
qed

text \<open>
  C5, as the code has it. A grid is, tile by tile in the order of the tiles, the clip of
  the tile when the clip is a Polygon and one polygon per part when the clip is a
  MultiPolygon (tiles that do not intersect the boundary, or whose clip fails or is empty,
  add nothing). So no multi-part cell appears in the output: every returned cell has
  geometry type Polygon, given that the library's \<^verbatim>\<open>polygon\<close> helper returns such
  features. A Polygon clip is returned as it is, with all the rings the clip has; the rings
  of a cell are not reduced to one.
\<close>

theorem generateSubdivisionGrid_single_part:
  assumes "generateSubdivisionGrid env (Some pf) cellSizeMeters = Inr cells"
  shows "\<exists>bbox grid.
           turfBbox env pf = Inr bbox \<and>
           turfSquareGrid env bbox (cellSizeMeters / 1000) = Inr grid \<and>
           cells = concat (map (tileCells env pf) grid) \<and>
           ((\<forall>c p. polygon env c = Inr p \<longrightarrow> (\<exists>rs. geometry p = Some (Polygon rs))) \<longrightarrow>
              (\<forall>c\<in>set cells. \<exists>rs. geometry c = Some (Polygon rs))) \<and>
           (\<forall>tile\<in>set grid. \<forall>clipped rs.
              turfBooleanIntersects env tile pf = Inr True \<and>
              turfIntersect env [tile, pf] = Inr (Some clipped) \<and>
              geometry clipped = Some (Polygon rs) \<longrightarrow>
                tileCells env pf tile = [clipped]) \<and>
           (\<forall>tile\<in>set grid. \<forall>clipped parts ps.
              turfBooleanIntersects env tile pf = Inr True \<and>
              turfIntersect env [tile, pf] = Inr (Some clipped) \<and>
              geometry clipped = Some (MultiPolygon parts) \<and>
              map (polygon env) parts = map Inr ps \<longrightarrow>
                tileCells env pf tile = ps)"
proof -
  from assms obtain bbox grid where b: "turfBbox env pf = Inr bbox"
    and g: "turfSquareGrid env bbox (cellSizeMeters / 1000) = Inr grid"
    and run: "forEachE (gridStep env pf) grid [] = Inr cells"
    by (auto simp: generateSubdivisionGrid_def Let_def split: sum.splits)
  from grid_loop_tileCells [OF run] have cells: "cells = concat (map (tileCells env pf) grid)"
    by simp
  have tag: "(\<forall>c p. polygon env c = Inr p \<longrightarrow> (\<exists>rs. geometry p = Some (Polygon rs))) \<longrightarrow>
              (\<forall>c\<in>set cells. \<exists>rs. geometry c = Some (Polygon rs))"
    using tileCells_polygons [of env pf] by (auto simp: cells)
  have one: "\<forall>tile\<in>set grid. \<forall>clipped rs.
              turfBooleanIntersects env tile pf = Inr True \<and>
              turfIntersect env [tile, pf] = Inr (Some clipped) \<and>
              geometry clipped = Some (Polygon rs) \<longrightarrow>
                tileCells env pf tile = [clipped]"
    by (simp add: tileCells_def)
  have fan: "\<forall>tile\<in>set grid. \<forall>clipped parts ps.
              turfBooleanIntersects env tile pf = Inr True \<and>
              turfIntersect env [tile, pf] = Inr (Some clipped) \<and>
              geometry clipped = Some (MultiPolygon parts) \<and>
              map (polygon env) parts = map Inr ps \<longrightarrow>
                tileCells env pf tile = ps"
    by (auto simp: tileCells_def partCells_all)
  from b g cells tag one fan show ?thesis by blast
qed

lemma splitting_contract:
  "\<forall>c p. polygon splitting c = Inr p \<longrightarrow> (\<exists>rs. geometry p = Some (Polygon rs))"
  by (auto simp: splitting_def planar_def planarPolygon_def split: if_splits)

lemma splitting_polygon:
  "map (polygon splitting) [unitSquare, block] = map Inr [polygonOf unitSquare, polygonOf block]"
  by (simp add: splitting_def planar_def planarPolygon_def polygonOf_def unitSquare_def block_def)

lemma splitting_primitives:
  "turfBbox splitting (polygonOf unitSquare) = Inr [0, 0, 1, 1]"
  "0 \<le> s \<Longrightarrow> turfSquareGrid splitting [0, 0, 1, 1] s = Inr [unitTile]"
  "turfBooleanIntersects splitting unitTile (polygonOf unitSquare) = Inr True"
  "turfIntersect splitting [unitTile, polygonOf unitSquare] =
     Inr (Some \<lparr>geometry = Some (MultiPolygon [unitSquare, block]), properties = []\<rparr>)"
  by (simp_all add: splitting_def planar_def planarBbox_def planarExplode_def planarSquareGrid_def
      polygonOf_def unitSquare_def unitTile_def)

lemma splitting_grid:
  "generateSubdivisionGrid splitting (Some (polygonOf unitSquare)) 50 =
     Inr [polygonOf unitSquare, polygonOf block]"
  using splitting_polygon
  by (simp add: generateSubdivisionGrid_def splitting_primitives gridStep_def clipCell_def)

lemma donut_grid:
  "generateSubdivisionGrid planar (Some (polygonOf donut)) 50 = Inr [polygonOf donut]"
  by (simp add: generateSubdivisionGrid_def gridStep_def clipCell_def planar_def planarBbox_def
      planarExplode_def planarSquareGrid_def planarIntersect_def polygonOf_def donut_def)

theorem generateSubdivisionGrid_single_part_witness:
  "generateSubdivisionGrid splitting (Some (polygonOf unitSquare)) 50 =
     Inr [polygonOf unitSquare, polygonOf block] \<and>
   tileCells splitting (polygonOf unitSquare) unitTile = [polygonOf unitSquare, polygonOf block] \<and>
   (\<exists>rs. geometry (polygonOf unitSquare) = Some (Polygon rs)) \<and>
   (\<exists>rs. geometry (polygonOf block) = Some (Polygon rs)) \<and>
   generateSubdivisionGrid planar (Some (polygonOf donut)) 50 = Inr [polygonOf donut]"
proof -
  from generateSubdivisionGrid_single_part [OF splitting_grid] obtain bbox grid where
    b: "turfBbox splitting (polygonOf unitSquare) = Inr bbox" and
    g: "turfSquareGrid splitting bbox (50 / 1000) = Inr grid" and
    tag: "(\<forall>c p. polygon splitting c = Inr p \<longrightarrow> (\<exists>rs. geometry p = Some (Polygon rs))) \<longrightarrow>
              (\<forall>c\<in>set [polygonOf unitSquare, polygonOf block]. \<exists>rs. geometry c = Some (Polygon rs))" and
    fan: "\<forall>tile\<in>set grid. \<forall>clipped parts ps.
              turfBooleanIntersects splitting tile (polygonOf unitSquare) = Inr True \<and>
              turfIntersect splitting [tile, polygonOf unitSquare] = Inr (Some clipped) \<and>
              geometry clipped = Some (MultiPolygon parts) \<and>
              map (polygon splitting) parts = map Inr ps \<longrightarrow>
                tileCells splitting (polygonOf unitSquare) tile = ps"
    by blast
  from b have "bbox = [0, 0, 1, 1]" by (simp add: splitting_primitives)
  with g have grid: "grid = [unitTile]" by (simp add: splitting_primitives)
  from fan grid have "tileCells splitting (polygonOf unitSquare) unitTile = [polygonOf unitSquare, polygonOf block]"
    using splitting_primitives(3,4) splitting_polygon by force
  moreover from tag splitting_contract have
    "\<forall>c\<in>set [polygonOf unitSquare, polygonOf block]. \<exists>rs. geometry c = Some (Polygon rs)"
    by blast
  ultimately show ?thesis using splitting_grid donut_grid by simp
qed

text \<open>
  C5 as stated fails: for the boundary \<open>donut\<close>, a square with a hole, the only tile is clipped
  to the boundary itself, and the returned cell has two rings.
\<close>

theorem generateSubdivisionGrid_hole_counterexample:
  "generateSubdivisionGrid planar (Some (polygonOf donut)) 50 = Inr [polygonOf donut] \<and>
   geometry (polygonOf donut) = Some (Polygon donut) \<and>
   length donut = 2"
  by (simp add: donut_grid) (simp add: polygonOf_def donut_def)

text \<open>
  C2, as the code has it. An absent boundary gives the empty list. For a present boundary
  the function never looks at the sign of \<^verbatim>\<open>cellSizeMeters\<close>: it hands \<^verbatim>\<open>cellSizeMeters / 1000\<close>
  to the grid primitive, returns the empty list when that returns no tile, and raises what
  the bounding-box or the grid primitive raises.
\<close>

theorem generateSubdivisionGrid_no_guard:
  "generateSubdivisionGrid env None cellSizeMeters = Inr [] \<and>
   (turfBbox env pf = Inr bbox \<and> turfSquareGrid env bbox (size1 / 1000) = Inr [] \<longrightarrow>
      generateSubdivisionGrid env (Some pf) size1 = Inr []) \<and>
   (turfBbox env' pf' = Inr bbox' \<and> turfSquareGrid env' bbox' (size2 / 1000) = Inl e \<longrightarrow>
      generateSubdivisionGrid env' (Some pf') size2 = Inl e) \<and>
   (turfBbox env'' pf'' = Inl e' \<longrightarrow> generateSubdivisionGrid env'' (Some pf'') size3 = Inl e')"
  by (simp add: generateSubdivisionGrid_def)

lemma planar_bbox: "turfBbox planar (polygonOf unitSquare) = Inr [0, 0, 1, 1]"
  by (simp add: planar_def planarBbox_def planarExplode_def polygonOf_def unitSquare_def)

theorem generateSubdivisionGrid_no_guard_witness:
  "generateSubdivisionGrid tileless (Some (polygonOf unitSquare)) 0 = Inr [] \<and>
   generateSubdivisionGrid planar (Some (polygonOf unitSquare)) (- 50) =
     Inl (Thrown ''length must be a positive number'') \<and>
   generateSubdivisionGrid planar (Some (polygonOf [])) 50 = Inl (Thrown ''no coordinates'')"
  using generateSubdivisionGrid_no_guard [where env = tileless and pf = "polygonOf unitSquare"
      and bbox = "[0, 0, 1, 1]" and ?size1.0 = 0
      and env' = planar and pf' = "polygonOf unitSquare" and bbox' = "[0, 0, 1, 1]"
      and ?size2.0 = "- 50" and e = "Thrown ''length must be a positive number''"
      and env'' = planar and pf'' = "polygonOf []" and e' = "Thrown ''no coordinates''"
      and ?size3.0 = 50]
    planar_bbox
  by (simp add: tileless_def planar_def planarSquareGrid_def planarBbox_def planarExplode_def polygonOf_def)

text \<open>
  C2 as stated fails: the grid primitive rejects a negative length, the call is outside the
  \<^verbatim>\<open>try\<close>, and the function raises instead of returning the empty list.
\<close>

theorem generateSubdivisionGrid_negative_size_counterexample:
  "generateSubdivisionGrid planar (Some (polygonOf unitSquare)) (- 50) =
     Inl (Thrown ''length must be a positive number'')"
  by (simp add: generateSubdivisionGrid_def planar_bbox)
     (simp add: planar_def planarSquareGrid_def)

section \<open>Properties of calculateLandValues\<close>

lemma mapE_measured:
  assumes "mapE (measureCell env road) cells = Inr results"
  shows "map feature results = cells \<and>
         (\<forall>r\<in>set results. \<exists>center. turfCentroid env (feature r) = Inr center \<and>
              turfPointToLineDistance env center road = Inr (distance r))"
  using assms
proof (induction cells arbitrary: results)
  case Nil
  then show ?case by simp
next
  case (Cons cell cells)
  from Cons.prems obtain r rs where r: "measureCell env road cell = Inr r"
    and rs: "mapE (measureCell env road) cells = Inr rs" and res: "results = r # rs"
    by (auto split: sum.splits)
  from r have "feature r = cell \<and> (\<exists>center. turfCentroid env cell = Inr center \<and>
              turfPointToLineDistance env center road = Inr (distance r))"
    by (auto simp: measureCell_def split: sum.splits)
  with Cons.IH [OF rs] res show ?case by auto
qed

lemma calculateLandValues_cells:
  assumes "calculateLandValues env cells (Some road) mode decayKArg maxDistanceOverride = Inr vs"
  shows "\<exists>results. mapE (measureCell env road) cells = Inr results \<and>
           vs = map (scoreCell env mode (case decayKArg of None \<Rightarrow> 5 / 1000 | Some k \<Rightarrow> k)
                       (maxDistOf maxDistanceOverride results)) results"
proof (cases cells)
  case Nil
  with assms show ?thesis by (simp add: calculateLandValues_def)
next
  case (Cons c cs)
  with assms show ?thesis
    by (auto simp: calculateLandValues_def Let_def split: sum.splits)
qed

lemma calculateLandValues_result:
  assumes "calculateLandValues env cells roadFeature mode decayKArg maxDistanceOverride = Inr vs"
  shows "vs = [] \<or>
         (\<exists>road results. roadFeature = Some road \<and>
            mapE (measureCell env road) cells = Inr results \<and>
            vs = map (scoreCell env mode (case decayKArg of None \<Rightarrow> 5 / 1000 | Some k \<Rightarrow> k)
                        (maxDistOf maxDistanceOverride results)) results)"
  using assms
  by (auto simp: calculateLandValues_def Let_def split: if_splits sum.splits)

lemma scoreCell_fields:
  "feature (scoreCell env mode k m r) = feature r"
  "distance (scoreCell env mode k m r) = distance r"
  "cellValue (scoreCell env Linear k m r) = max 0 (1 - distance r / m)"
  "cellValue (scoreCell env Exponential k m r) = mathExp env (- k * distance r)"
  by (simp_all add: scoreCell_def Let_def)

lemma maxDistOf_eq:
  "maxDistOf ov results =
     (case ov of
        None \<Rightarrow> Max (set (1 # map distance results))
      | Some v \<Rightarrow> if v = 0 then Max (set (1 # map distance results)) else v)"
proof -
  have "fold max (map distance results) 1 = Max (set (1 # map distance results))"
    by (rule Max.set_eq_fold [symmetric])
  then show ?thesis
    by (simp only: maxDistOf_def if_not_P if_P split: option.splits if_splits) simp
qed

text \<open>
  C1, as the code has it. In linear mode the divisor \<open>maxDist\<close> is the override when one is
  supplied and is not zero; when it is absent or zero, \<open>maxDist\<close> is the largest of the
  observed cell distances and 1. The divisor is never zero, and every returned value is
  \<open>max 0 (1 - distance / maxDist)\<close>, where the distance of a cell is the distance of its
  centroid from the road.
\<close>

theorem calculateLandValues_linear:
  assumes "calculateLandValues env cells roadFeature Linear decayKArg maxDistanceOverride = Inr vs"
  shows "let maxDist = (case maxDistanceOverride of
                          None \<Rightarrow> Max (set (1 # map distance vs))
                        | Some v \<Rightarrow> if v = 0 then Max (set (1 # map distance vs)) else v)
         in maxDist \<noteq> 0 \<and>
            (\<forall>v\<in>set vs. cellValue v = max 0 (1 - distance v / maxDist) \<and>
               (\<exists>road center. roadFeature = Some road \<and>
                  turfCentroid env (feature v) = Inr center \<and>
                  turfPointToLineDistance env center road = Inr (distance v)))"
proof -
  from calculateLandValues_result [OF assms]
  show ?thesis
  proof
    assume "vs = []"
    then show ?thesis by (simp add: Let_def split: option.splits)
  next
    assume "\<exists>road results. roadFeature = Some road \<and>
            mapE (measureCell env road) cells = Inr results \<and>
            vs = map (scoreCell env Linear (case decayKArg of None \<Rightarrow> 5 / 1000 | Some k \<Rightarrow> k)
                        (maxDistOf maxDistanceOverride results)) results"
    then obtain road results where road: "roadFeature = Some road"
      and m: "mapE (measureCell env road) cells = Inr results"
      and vs: "vs = map (scoreCell env Linear (case decayKArg of None \<Rightarrow> 5 / 1000 | Some k \<Rightarrow> k)
                        (maxDistOf maxDistanceOverride results)) results"
      by blast
    have d: "map distance results = map distance vs"
      by (simp add: vs scoreCell_fields comp_def)
    define maxDist where "maxDist = maxDistOf maxDistanceOverride results"
    have md: "maxDist = (case maxDistanceOverride of
                          None \<Rightarrow> Max (set (1 # map distance vs))
                        | Some v \<Rightarrow> if v = 0 then Max (set (1 # map distance vs)) else v)"
      unfolding maxDist_def maxDistOf_eq d by (rule refl)
    have "1 \<le> Max (insert 1 (distance ` set vs))" by (rule Max_ge) simp_all
    then have "Max (insert 1 (distance ` set vs)) \<noteq> 0" by linarith
    then have nz: "maxDist \<noteq> 0" by (auto simp: md split: option.splits)
    have "\<forall>v\<in>set vs. cellValue v = max 0 (1 - distance v / maxDist) \<and>
               (\<exists>road center. roadFeature = Some road \<and>
                  turfCentroid env (feature v) = Inr center \<and>
                  turfPointToLineDistance env center road = Inr (distance v))"
      using mapE_measured [OF m] road by (auto simp: vs scoreCell_fields maxDist_def)
    with nz show ?thesis by (simp add: Let_def md [symmetric])
  qed
qed

lemma planar_measured:
  "mapE (measureCell planar exampleRoad) exampleCells = Inr measuredCells"
  by (simp add: measureCell_def exampleCells_def exampleRoad_def measuredCells_def planar_def
      planarCentroid_def planarExplode_def planarPointToLineDistance_def axisDistance_def
      polygonOf_def lineOf_def unitSquare_def block_def)

lemma planar_valuation:
  "calculateLandValues planar exampleCells (Some exampleRoad) mode (Some k) ov =
     Inr (map (scoreCell planar mode k (maxDistOf ov measuredCells)) measuredCells)"
proof -
  have "length exampleCells \<noteq> 0" by (simp add: exampleCells_def)
  then show ?thesis by (simp add: calculateLandValues_def planar_measured)
qed

lemma planar_maxDist:
  "maxDistOf None measuredCells = 113 / 5" "maxDistOf (Some 0) measuredCells = 113 / 5"
  "maxDistOf (Some 100) measuredCells = 100"
  by (simp_all add: maxDistOf_def measuredCells_def)

theorem calculateLandValues_linear_witness:
  "map distance (map (scoreCell planar Linear 1 100 ) measuredCells) = [2, 113 / 5] \<and>
   map cellValue (map (scoreCell planar Linear 1 100) measuredCells) = [49 / 50, 387 / 500]"
  using calculateLandValues_linear [where env = planar and cells = exampleCells
      and roadFeature = "Some exampleRoad" and decayKArg = "Some 1" and maxDistanceOverride = "Some 100"
      and vs = "map (scoreCell planar Linear 1 100) measuredCells"]
    planar_valuation [of Linear 1 "Some 100"]
  by (simp add: planar_maxDist Let_def scoreCell_fields measuredCells_def)

text \<open>
  C1 as stated fails for the override 0, which is supplied and not null: the divisor is then
  the largest observed distance, here 113/5, and the value of the first cell is
  \<open>1 - 2 / (113/5)\<close>.
\<close>

theorem calculateLandValues_zero_override_counterexample:
  "calculateLandValues planar exampleCells (Some exampleRoad) Linear (Some 1) (Some 0) =
     Inr [\<lparr>feature = polygonOf unitSquare, distance = 2, cellValue = 103 / 113, color = ''warm''\<rparr>,
          \<lparr>feature = polygonOf block, distance = 113 / 5, cellValue = 0, color = ''cool''\<rparr>] \<and>
   maxDistOf (Some 0) measuredCells = 113 / 5 \<and>
   (103 / 113 :: real) = max 0 (1 - 2 / (113 / 5))"
  by (simp add: planar_valuation planar_maxDist)
     (simp add: measuredCells_def scoreCell_def planar_def)

text \<open>
  C6, as the code has it. In exponential mode, with a road, the function returns one value
  per cell, in order; the distance of each is the distance of the centroid of its cell from
  the road, and its value is \<^verbatim>\<open>Math.exp(-decayK * distance)\<close>, where \<open>decayK\<close> is the argument or
  the default 0.005. If \<open>decayK\<close> is positive and \<^verbatim>\<open>Math.exp\<close> is monotone, then of two returned
  cells the one with the strictly greater distance has a value that is smaller or equal.
  The decrease is not strict: \<^verbatim>\<open>Math.exp\<close> returns the same number, 0, for all sufficiently
  negative arguments.
\<close>

theorem calculateLandValues_exponential:
  assumes "calculateLandValues env cells (Some road) Exponential decayKArg maxDistanceOverride = Inr vs"
  shows "let decayK = (case decayKArg of None \<Rightarrow> 5 / 1000 | Some k \<Rightarrow> k) in
           map feature vs = cells \<and>
           (\<forall>v\<in>set vs. cellValue v = mathExp env (- decayK * distance v) \<and>
              (\<exists>center. turfCentroid env (feature v) = Inr center \<and>
                 turfPointToLineDistance env center road = Inr (distance v))) \<and>
           (0 < decayK \<and> (\<forall>x y. x \<le> y \<longrightarrow> mathExp env x \<le> mathExp env y) \<longrightarrow>
              (\<forall>v\<in>set vs. \<forall>w\<in>set vs. distance v < distance w \<longrightarrow> cellValue w \<le> cellValue v))"
proof -
  define k :: real where "k = (case decayKArg of None \<Rightarrow> 5 / 1000 | Some k \<Rightarrow> k)"
  from calculateLandValues_cells [OF assms] obtain results where
    m: "mapE (measureCell env road) cells = Inr results" and
    vs: "vs = map (scoreCell env Exponential k (maxDistOf maxDistanceOverride results)) results"
    by (auto simp: k_def)
  have f: "map feature vs = cells"
    using mapE_measured [OF m] by (simp add: vs scoreCell_fields comp_def)
  have val: "\<forall>v\<in>set vs. cellValue v = mathExp env (- k * distance v) \<and>
              (\<exists>center. turfCentroid env (feature v) = Inr center \<and>
                 turfPointToLineDistance env center road = Inr (distance v))"
    using mapE_measured [OF m] by (auto simp: vs scoreCell_fields)
  have mono: "0 < k \<and> (\<forall>x y. x \<le> y \<longrightarrow> mathExp env x \<le> mathExp env y) \<longrightarrow>
              (\<forall>v\<in>set vs. \<forall>w\<in>set vs. distance v < distance w \<longrightarrow> cellValue w \<le> cellValue v)"
  proof (intro impI ballI)
    fix v w
    assume h: "0 < k \<and> (\<forall>x y. x \<le> y \<longrightarrow> mathExp env x \<le> mathExp env y)"
      and v: "v \<in> set vs" and w: "w \<in> set vs" and less: "distance v < distance w"
    from h less have "- k * distance w \<le> - k * distance v" by simp
    with h have "mathExp env (- k * distance w) \<le> mathExp env (- k * distance v)" by blast
    with val v w show "cellValue w \<le> cellValue v" by simp
  qed
  from f val mono show ?thesis by (simp add: Let_def k_def)
qed

lemma planarExp_mono: "\<forall>x y. x \<le> y \<longrightarrow> mathExp planar x \<le> mathExp planar y"
  by (simp add: planar_def planarExp_def)

lemma planar_values:
  "map cellValue (map (scoreCell planar Exponential 1 (113 / 5)) measuredCells) =
     [exp (- 2), exp (- (113 / 5))]"
  by (simp add: measuredCells_def scoreCell_fields planar_def planarExp_def)

theorem calculateLandValues_exponential_witness:
  "calculateLandValues planar exampleCells (Some exampleRoad) Exponential (Some 1) None =
     Inr (map (scoreCell planar Exponential 1 (113 / 5)) measuredCells) \<and>
   map feature (map (scoreCell planar Exponential 1 (113 / 5)) measuredCells) = exampleCells \<and>
   map cellValue (map (scoreCell planar Exponential 1 (113 / 5)) measuredCells) =
     [exp (- 2), exp (- (113 / 5))] \<and>
   exp (- (113 / 5)) \<le> (exp (- 2) :: real)"
proof -
  let ?vs = "map (scoreCell planar Exponential 1 (113 / 5)) measuredCells"
  have run: "calculateLandValues planar exampleCells (Some exampleRoad) Exponential (Some 1) None = Inr ?vs"
    by (simp add: planar_valuation planar_maxDist)
  from calculateLandValues_exponential [OF run] planarExp_mono have
    f: "map feature ?vs = exampleCells" and
    dec: "\<forall>v\<in>set ?vs. \<forall>w\<in>set ?vs. distance v < distance w \<longrightarrow> cellValue w \<le> cellValue v"
    by (simp_all add: Let_def)
  have "?vs ! 0 \<in> set ?vs" "?vs ! 1 \<in> set ?vs" by (simp_all add: measuredCells_def)
  moreover have "distance (?vs ! 0) < distance (?vs ! 1)"
    by (simp add: measuredCells_def scoreCell_fields)
  ultimately have "cellValue (?vs ! 1) \<le> cellValue (?vs ! 0)" using dec by blast
  moreover have "cellValue (?vs ! 0) = exp (- 2)" "cellValue (?vs ! 1) = exp (- (113 / 5))"
    by (simp_all add: measuredCells_def scoreCell_fields planar_def planarExp_def)
  ultimately have "exp (- (113 / 5)) \<le> (exp (- 2) :: real)" by simp
  with run f planar_values show ?thesis by simp
qed

text \<open>
  C6 as stated fails: with \<open>decayK = 1000\<close> the two cells, at distances 2 and 113/5, both
  receive the value 0, because \<^verbatim>\<open>Math.exp\<close> of -2000 and of -22600 is 0. The greater distance
  does not receive a strictly smaller value.
\<close>

theorem calculateLandValues_underflow_counterexample:
  "calculateLandValues planar exampleCells (Some exampleRoad) Exponential (Some 1000) None =
     Inr [\<lparr>feature = polygonOf unitSquare, distance = 2, cellValue = 0, color = ''cool''\<rparr>,
          \<lparr>feature = polygonOf block, distance = 113 / 5, cellValue = 0, color = ''cool''\<rparr>] \<and>
   (2 :: real) < 113 / 5"
  by (simp add: planar_valuation planar_maxDist)
     (simp add: measuredCells_def scoreCell_def planar_def planarExp_def)

end
